theory Spec2Isabelle
  imports Complex_Main "HOL-Library.AList"
begin

section \<open>Typed configuration objects of rltools (src/rltools/config.py)\<close>

text \<open>
  The development embeds the \<^verbatim>\<open>Config\<close> dataclass of \<^verbatim>\<open>rltools/config.py\<close>:
  the two helpers \<^verbatim>\<open>_topy\<close> and \<^verbatim>\<open>_strip_union\<close>, the cast pass
  \<^verbatim>\<open>__post_init__\<close>, and the factories \<^verbatim>\<open>save\<close>, \<^verbatim>\<open>load\<close> and
  \<^verbatim>\<open>from_entrypoint\<close>. The code is reflective: it inspects type annotations with
  \<^verbatim>\<open>typing.get_origin\<close> and \<^verbatim>\<open>typing.get_args\<close>, calls the builtin classes as
  converters and drives \<^verbatim>\<open>argparse\<close>. Annotations, Python values and the part of
  the standard library that the code calls are therefore data and functions of the model
  (CPython 3.9 to 3.11).
\<close>

subsection \<open>Type annotations and the \<^verbatim>\<open>typing\<close> introspection functions\<close>

text \<open>
  \<open>Generic origin args\<close> is a parametrised alias: \<^verbatim>\<open>List[int]\<close> and \<^verbatim>\<open>list[int]\<close> are
  \<open>Generic TList [TInt]\<close>, \<^verbatim>\<open>Tuple[int, ...]\<close> is \<open>Generic TTuple [TInt, TEllipsis]\<close>,
  \<^verbatim>\<open>Sequence[int]\<close> is \<open>Generic TSequence [TInt]\<close> and the bare alias \<^verbatim>\<open>typing.List\<close> is
  \<open>Generic TList []\<close>. \<open>TUnion t ts\<close> is \<^verbatim>\<open>Union[t, ts...]\<close>, so that
  \<^verbatim>\<open>Optional[T]\<close> is \<open>TUnion T [TNoneType]\<close>; a union always has a first alternative.
  \<open>TUnionForm\<close> is the special form \<^verbatim>\<open>typing.Union\<close> itself, the value that
  \<^verbatim>\<open>get_origin\<close> returns for a union. \<open>TClass n\<close> is any other class or object.
\<close>

datatype pytype =
    TInt | TFloat | TBool | TStr | TList | TTuple
  | TSet | TDict | TNoneType | TSequence | TEllipsis | TUnionForm
  | TClass string
  | Generic pytype "pytype list"
  | TUnion pytype "pytype list"

fun get_origin :: "pytype \<Rightarrow> pytype option" where
  "get_origin (Generic origin args) = Some origin"
| "get_origin (TUnion t ts) = Some TUnionForm"
| "get_origin t = None"

fun get_args :: "pytype \<Rightarrow> pytype list" where
  "get_args (Generic origin args) = args"
| "get_args (TUnion t ts) = t # ts"
| "get_args t = []"

text \<open>\<^verbatim>\<open>_topy(dtype) = typing.get_origin(dtype) or dtype\<close>; an origin is never falsy.\<close>

definition topy :: "pytype \<Rightarrow> pytype" where
  "topy dtype = (case get_origin dtype of Some origin \<Rightarrow> origin | None \<Rightarrow> dtype)"

text \<open>\<^verbatim>\<open>_strip_union\<close>: a union is replaced by its first alternative.\<close>

definition strip_union :: "pytype \<Rightarrow> pytype" where
  "strip_union dtype =
     (if get_origin dtype = Some TUnionForm then hd (get_args dtype) else dtype)"

definition ValidType :: pytype where
  "ValidType = TUnion TInt [TFloat, TBool, TStr, TList, TTuple]"

definition valid_types :: "pytype list" where
  "valid_types = map topy (get_args ValidType)"

subsection \<open>Values, errors and the builtin conversions\<close>

text \<open>
  Python values that reach a configuration: the scalars, the flat containers, mappings
  (a dictionary as an association list, in insertion order) and the sentinel
  \<^verbatim>\<open>dataclasses.MISSING\<close>. The carrier \<open>'f\<close> of floating-point numbers is a
  parameter: nothing below depends on how floats are represented or rounded. A string is
  a list of characters; iterating it yields one-character strings. Equality of values is
  structural; it implies Python's \<^verbatim>\<open>==\<close> for everything but a NaN.
\<close>

datatype 'f pyval =
    VNone | VBool bool | VInt int | VFloat 'f | VStr string
  | VList "'f pyval list" | VTuple "'f pyval list" | VSet "'f pyval list"
  | VDict "('f pyval \<times> 'f pyval) list"
  | VMissing

datatype error =
    TypeError | ValueError | OverflowError | AttributeError
  | SchemaTypeError pytype
  | ArgumentError | SystemExit nat
  | OSError | ParseError | RepresenterError
  | OtherError string | Unmodelled

text \<open>
  What the model takes from the Python runtime without defining it: the float
  conversions, the textual form of floats, containers and other objects, and the result
  of calling a class other than the six builtin ones.
\<close>

record 'f py_ops =
  float_of_str :: "string \<Rightarrow> 'f option"
  float_of_int :: "int \<Rightarrow> 'f option"
  int_of_float :: "'f \<Rightarrow> error + int"
  float_is_zero :: "'f \<Rightarrow> bool"
  str_of_float :: "'f \<Rightarrow> string"
  repr_other :: "'f pyval \<Rightarrow> string"
  repr_map :: string
  call_other :: "pytype \<Rightarrow> 'f pyval \<Rightarrow> error + 'f pyval"

fun mapM :: "('a \<Rightarrow> error + 'b) \<Rightarrow> 'a list \<Rightarrow> error + 'b list" where
  "mapM f [] = Inr []"
| "mapM f (x # xs) =
     (case f x of Inl e \<Rightarrow> Inl e
      | Inr y \<Rightarrow> (case mapM f xs of Inl e \<Rightarrow> Inl e | Inr ys \<Rightarrow> Inr (y # ys)))"

definition is_space :: "char \<Rightarrow> bool" where
  "is_space c \<longleftrightarrow> c \<in> set [CHR '' '', CHR 0x09, CHR 0x0A, CHR 0x0B, CHR 0x0C, CHR 0x0D]"

definition strip :: "string \<Rightarrow> string" where
  "strip s = rev (dropWhile is_space (rev (dropWhile is_space s)))"

definition digit_val :: "char \<Rightarrow> nat option" where
  "digit_val c = map_of (zip ''0123456789'' [0, 1, 2, 3, 4, 5, 6, 7, 8, 9]) c"

text \<open>Decimal digits after the first one; a single underscore may separate two digits.\<close>

fun parse_digits :: "nat \<Rightarrow> string \<Rightarrow> nat option" where
  "parse_digits acc [] = Some acc"
| "parse_digits acc [c] =
     (case digit_val c of None \<Rightarrow> None | Some k \<Rightarrow> Some (10 * acc + k))"
| "parse_digits acc (c # d # cs) =
     (if c = CHR ''_''
      then (case digit_val d of None \<Rightarrow> None | Some k \<Rightarrow> parse_digits (10 * acc + k) cs)
      else (case digit_val c of None \<Rightarrow> None | Some k \<Rightarrow> parse_digits (10 * acc + k) (d # cs)))"

definition parse_nat :: "string \<Rightarrow> nat option" where
  "parse_nat s =
     (case s of [] \<Rightarrow> None
      | c # cs \<Rightarrow> (case digit_val c of None \<Rightarrow> None | Some k \<Rightarrow> parse_digits k cs))"

text \<open>\<^verbatim>\<open>int(s)\<close> for an ASCII string: surrounding whitespace, a sign, decimal digits.\<close>

definition int_of_str :: "string \<Rightarrow> int option" where
  "int_of_str s =
     (case strip s of [] \<Rightarrow> None
      | c # cs \<Rightarrow>
          if c = CHR ''-'' then map_option (\<lambda>n. - int n) (parse_nat cs)
          else if c = CHR ''+'' then map_option int (parse_nat cs)
          else map_option int (parse_nat (c # cs)))"

fun digits_of :: "nat \<Rightarrow> string" where
  "digits_of n =
     (if n < 10 then [''0123456789'' ! n]
      else digits_of (n div 10) @ [''0123456789'' ! (n mod 10)])"

definition str_of_int :: "int \<Rightarrow> string" where
  "str_of_int i = (if i < 0 then CHR ''-'' # digits_of (nat (- i)) else digits_of (nat i))"

text \<open>Truthiness, \<^verbatim>\<open>bool(v)\<close>: never raises on these values.\<close>

fun truthy :: "'f py_ops \<Rightarrow> 'f pyval \<Rightarrow> bool" where
  "truthy ops VNone = False"
| "truthy ops (VBool b) = b"
| "truthy ops (VInt i) = (i \<noteq> 0)"
| "truthy ops (VFloat x) = (\<not> float_is_zero ops x)"
| "truthy ops (VStr s) = (s \<noteq> [])"
| "truthy ops (VList xs) = (xs \<noteq> [])"
| "truthy ops (VTuple xs) = (xs \<noteq> [])"
| "truthy ops (VSet xs) = (xs \<noteq> [])"
| "truthy ops (VDict kvs) = (kvs \<noteq> [])"
| "truthy ops VMissing = True"

text \<open>\<^verbatim>\<open>iter(v)\<close>: the items of an iterable, \<open>None\<close> where Python raises TypeError.\<close>

fun py_iter :: "'f pyval \<Rightarrow> 'f pyval list option" where
  "py_iter (VList xs) = Some xs"
| "py_iter (VTuple xs) = Some xs"
| "py_iter (VSet xs) = Some xs"
| "py_iter (VDict kvs) = Some (map fst kvs)"
| "py_iter (VStr s) = Some (map (\<lambda>c. VStr [c]) s)"
| "py_iter v = None"

fun py_int :: "'f py_ops \<Rightarrow> 'f pyval \<Rightarrow> error + 'f pyval" where
  "py_int ops (VInt i) = Inr (VInt i)"
| "py_int ops (VBool b) = Inr (VInt (if b then 1 else 0))"
| "py_int ops (VFloat x) =
     (case int_of_float ops x of Inl e \<Rightarrow> Inl e | Inr i \<Rightarrow> Inr (VInt i))"
| "py_int ops (VStr s) =
     (case int_of_str s of None \<Rightarrow> Inl ValueError | Some i \<Rightarrow> Inr (VInt i))"
| "py_int ops v = Inl TypeError"

fun py_float :: "'f py_ops \<Rightarrow> 'f pyval \<Rightarrow> error + 'f pyval" where
  "py_float ops (VFloat x) = Inr (VFloat x)"
| "py_float ops (VInt i) =
     (case float_of_int ops i of None \<Rightarrow> Inl OverflowError | Some x \<Rightarrow> Inr (VFloat x))"
| "py_float ops (VBool b) =
     (case float_of_int ops (if b then 1 else 0) of
        None \<Rightarrow> Inl OverflowError | Some x \<Rightarrow> Inr (VFloat x))"
| "py_float ops (VStr s) =
     (case float_of_str ops s of None \<Rightarrow> Inl ValueError | Some x \<Rightarrow> Inr (VFloat x))"
| "py_float ops v = Inl TypeError"

fun py_str :: "'f py_ops \<Rightarrow> 'f pyval \<Rightarrow> string" where
  "py_str ops (VStr s) = s"
| "py_str ops (VInt i) = str_of_int i"
| "py_str ops (VBool b) = (if b then ''True'' else ''False'')"
| "py_str ops VNone = ''None''"
| "py_str ops (VFloat x) = str_of_float ops x"
| "py_str ops v = repr_other ops v"

text \<open>Calling a class on one argument, \<^verbatim>\<open>t(v)\<close>.\<close>

fun py_call :: "'f py_ops \<Rightarrow> pytype \<Rightarrow> 'f pyval \<Rightarrow> error + 'f pyval" where
  "py_call ops TInt v = py_int ops v"
| "py_call ops TFloat v = py_float ops v"
| "py_call ops TBool v = Inr (VBool (truthy ops v))"
| "py_call ops TStr v = Inr (VStr (py_str ops v))"
| "py_call ops TList v = (case py_iter v of None \<Rightarrow> Inl TypeError | Some xs \<Rightarrow> Inr (VList xs))"
| "py_call ops TTuple v = (case py_iter v of None \<Rightarrow> Inl TypeError | Some xs \<Rightarrow> Inr (VTuple xs))"
| "py_call ops t v = call_other ops t v"

text \<open>
  The value of the local variable \<^verbatim>\<open>value\<close> in \<^verbatim>\<open>__post_init__\<close> is either the raw
  attribute or a lazy \<^verbatim>\<open>map\<close> object: \<^verbatim>\<open>_topy(map(f, value))\<close> is the map object
  itself, since \<^verbatim>\<open>get_origin\<close> of a map object is \<^verbatim>\<open>None\<close>. \<^verbatim>\<open>map(f, value)\<close> raises
  TypeError at once when \<^verbatim>\<open>value\<close> is not iterable, and applies \<^verbatim>\<open>f\<close> only when the
  map object is consumed.
\<close>

datatype 'f arg = Plain "'f pyval" | MapObject pytype "'f pyval list"

definition py_map :: "pytype \<Rightarrow> 'f pyval \<Rightarrow> error + 'f arg" where
  "py_map f v = (case py_iter v of None \<Rightarrow> Inl TypeError | Some xs \<Rightarrow> Inr (MapObject f xs))"

fun construct :: "'f py_ops \<Rightarrow> pytype \<Rightarrow> 'f arg \<Rightarrow> error + 'f pyval" where
  "construct ops t (Plain v) = py_call ops t v"
| "construct ops t (MapObject f xs) =
     (if t = TList then
        (case mapM (py_call ops f) xs of Inl e \<Rightarrow> Inl e | Inr ys \<Rightarrow> Inr (VList ys))
      else if t = TTuple then
        (case mapM (py_call ops f) xs of Inl e \<Rightarrow> Inl e | Inr ys \<Rightarrow> Inr (VTuple ys))
      else if t = TBool then Inr (VBool True)
      else if t = TStr then Inr (VStr (repr_map ops))
      else Inl TypeError)"

subsection \<open>The dataclass: fields, instances and the generated constructor\<close>

text \<open>
  A field of the dataclass as \<^verbatim>\<open>dataclasses.fields\<close> reports it. \<open>field_default\<close> is
  \<open>None\<close> when \<^verbatim>\<open>field.default\<close> is \<^verbatim>\<open>MISSING\<close>; \<open>field_default_factory\<close> holds
  the value that a default factory produces. A class is the list of its fields, in
  declaration order; the names of a dataclass are pairwise different.
\<close>

record 'f field =
  field_name :: string
  field_type :: pytype
  field_default :: "'f pyval option"
  field_default_factory :: "'f pyval option"

type_synonym 'f config = "(string \<times> 'f pyval) list"

definition getattr :: "'f config \<Rightarrow> string \<Rightarrow> 'f pyval option" where
  "getattr self name = map_of self name"

definition setattr :: "'f config \<Rightarrow> string \<Rightarrow> 'f pyval \<Rightarrow> 'f config" where
  "setattr self name v = AList.update name v self"

text \<open>
  The \<^verbatim>\<open>__init__\<close> that \<^verbatim>\<open>@dataclass\<close> generates: an unexpected keyword or a field
  with neither an argument nor a default is a TypeError; the attributes are assigned in
  declaration order.
\<close>

definition init_value :: "(string \<times> 'f pyval) list \<Rightarrow> 'f field \<Rightarrow> error + (string \<times> 'f pyval)" where
  "init_value kwargs fd =
     (case map_of kwargs (field_name fd) of
        Some v \<Rightarrow> Inr (field_name fd, v)
      | None \<Rightarrow>
          (case field_default fd of
             Some d \<Rightarrow> Inr (field_name fd, d)
           | None \<Rightarrow>
               (case field_default_factory fd of
                  Some d \<Rightarrow> Inr (field_name fd, d)
                | None \<Rightarrow> Inl TypeError)))"

definition dataclass_init :: "'f field list \<Rightarrow> (string \<times> 'f pyval) list \<Rightarrow> error + 'f config" where
  "dataclass_init fds kwargs =
     (if \<exists>k \<in> set (map fst kwargs). k \<notin> set (map field_name fds) then Inl TypeError
      else mapM (init_value kwargs) fds)"

subsection \<open>\<^verbatim>\<open>Config.__post_init__\<close>\<close>

text \<open>
  Lines 56 to 65 of the loop body: the value that is stored back for a field of declared
  type \<open>ftype0\<close> whose attribute holds \<open>value\<close>.
\<close>

definition cast_value :: "'f py_ops \<Rightarrow> pytype \<Rightarrow> 'f pyval \<Rightarrow> error + 'f pyval" where
  "cast_value ops ftype0 value =
     (let ftype = strip_union ftype0;
          fdtype = topy ftype;
          args = get_args ftype
      in case (if args \<noteq> [] then py_map (topy (hd args)) value else Inr (Plain value)) of
           Inl e \<Rightarrow> Inl e
         | Inr value' \<Rightarrow>
             let is_optional = (get_origin ftype0 = Some TUnionForm)
             in if is_optional \<and> value' = Plain VNone then Inr VNone
                else construct ops fdtype value')"

text \<open>One iteration of the loop: validate, read the attribute, cast, store.\<close>

definition post_init_field :: "'f py_ops \<Rightarrow> 'f field \<Rightarrow> 'f config \<Rightarrow> error + 'f config" where
  "post_init_field ops fd self =
     (if topy (strip_union (field_type fd)) \<notin> set valid_types
      then Inl (SchemaTypeError (field_type fd))
      else case getattr self (field_name fd) of
             None \<Rightarrow> Inl AttributeError
           | Some value \<Rightarrow>
               (case cast_value ops (field_type fd) value of
                  Inl e \<Rightarrow> Inl e
                | Inr v \<Rightarrow> Inr (setattr self (field_name fd) v)))"

fun post_init_loop :: "'f py_ops \<Rightarrow> 'f field list \<Rightarrow> 'f config \<Rightarrow> error + 'f config" where
  "post_init_loop ops [] self = Inr self"
| "post_init_loop ops (fd # fds) self =
     (case post_init_field ops fd self of
        Inl e \<Rightarrow> Inl e
      | Inr self' \<Rightarrow> post_init_loop ops fds self')"

definition post_init :: "'f py_ops \<Rightarrow> 'f field list \<Rightarrow> 'f config \<Rightarrow> error + 'f config" where
  "post_init ops fds self = post_init_loop ops fds self"

text \<open>\<^verbatim>\<open>cls(**kwargs)\<close>: the generated constructor, then the cast pass.\<close>

definition cls :: "'f py_ops \<Rightarrow> 'f field list \<Rightarrow> (string \<times> 'f pyval) list \<Rightarrow> error + 'f config" where
  "cls ops fds kwargs =
     (case dataclass_init fds kwargs of
        Inl e \<Rightarrow> Inl e
      | Inr self \<Rightarrow> post_init ops fds self)"

subsection \<open>\<^verbatim>\<open>Config.save\<close> and \<^verbatim>\<open>Config.load\<close>\<close>

text \<open>
  A file either holds a YAML document or something the parser rejects. A document is
  identified with the value that the safe loader constructs from it, so the text that
  ruamel.yaml emits and parses is not modelled. \<open>yaml_data v\<close> is the value read back
  from the document the safe dumper writes for \<open>v\<close>: a tuple is represented as a
  sequence and comes back as a list, an object without a representer
  (\<^verbatim>\<open>dataclasses.MISSING\<close>) is a RepresenterError, mapping keys are left as they are.
\<close>

datatype 'f file_content = NotYaml | Yaml "'f pyval"

record 'f filesystem =
  files :: "string \<Rightarrow> 'f file_content option"
  writable :: "string \<Rightarrow> bool"

fun yaml_data :: "'f pyval \<Rightarrow> error + 'f pyval"
  and yaml_data_list :: "'f pyval list \<Rightarrow> error + 'f pyval list"
  and yaml_data_items :: "('f pyval \<times> 'f pyval) list \<Rightarrow> error + ('f pyval \<times> 'f pyval) list"
where
  "yaml_data (VList xs) =
     (case yaml_data_list xs of Inl e \<Rightarrow> Inl e | Inr ys \<Rightarrow> Inr (VList ys))"
| "yaml_data (VTuple xs) =
     (case yaml_data_list xs of Inl e \<Rightarrow> Inl e | Inr ys \<Rightarrow> Inr (VList ys))"
| "yaml_data (VSet xs) =
     (case yaml_data_list xs of Inl e \<Rightarrow> Inl e | Inr ys \<Rightarrow> Inr (VSet ys))"
| "yaml_data (VDict kvs) =
     (case yaml_data_items kvs of Inl e \<Rightarrow> Inl e | Inr kvs' \<Rightarrow> Inr (VDict kvs'))"
| "yaml_data VMissing = Inl RepresenterError"
| "yaml_data VNone = Inr VNone"
| "yaml_data (VBool b) = Inr (VBool b)"
| "yaml_data (VInt i) = Inr (VInt i)"
| "yaml_data (VFloat x) = Inr (VFloat x)"
| "yaml_data (VStr s) = Inr (VStr s)"
| "yaml_data_list [] = Inr []"
| "yaml_data_list (x # xs) =
     (case yaml_data x of Inl e \<Rightarrow> Inl e
      | Inr y \<Rightarrow> (case yaml_data_list xs of Inl e \<Rightarrow> Inl e | Inr ys \<Rightarrow> Inr (y # ys)))"
| "yaml_data_items [] = Inr []"
| "yaml_data_items ((k, v) # kvs) =
     (case yaml_data v of Inl e \<Rightarrow> Inl e
      | Inr v' \<Rightarrow>
          (case yaml_data_items kvs of Inl e \<Rightarrow> Inl e | Inr kvs' \<Rightarrow> Inr ((k, v') # kvs')))"



text \<open>
  The comprehension \<^verbatim>\<open>{k: v for k, v in config_dict.items() if k in known_names}\<close>: a
  key that is not a string equals no field name.
\<close>

definition known_items :: "string list \<Rightarrow> ('f pyval \<times> 'f pyval) list \<Rightarrow> (string \<times> 'f pyval) list" where
  "known_items known_names config_dict =
     List.map_filter
       (\<lambda>(k, v). case k of
                    VStr s \<Rightarrow> if s \<in> set known_names then Some (s, v) else None
                  | _ \<Rightarrow> None)
       config_dict"

text \<open>
  \<^verbatim>\<open>load\<close>: a missing file and a malformed one are errors of \<^verbatim>\<open>open\<close> and of the
  YAML parser; a document that is not a mapping has no \<^verbatim>\<open>update\<close> method.
  \<^verbatim>\<open>config_dict.update(kwargs)\<close> is \<open>AList.merge\<close>, where the second list wins.
\<close>

definition load :: "'f py_ops \<Rightarrow> 'f field list \<Rightarrow> 'f filesystem \<Rightarrow> string \<Rightarrow> (string \<times> 'f pyval) list
    \<Rightarrow> error + 'f config" where
  "load ops fds fs file_path kwargs =
     (case files fs file_path of
        None \<Rightarrow> Inl OSError
      | Some NotYaml \<Rightarrow> Inl ParseError
      | Some (Yaml doc) \<Rightarrow>
          (case doc of
             VDict config_dict \<Rightarrow>
               (let config_dict = AList.merge config_dict (map (\<lambda>(k, v). (VStr k, v)) kwargs);
                    known_names = map field_name fds
                in cls ops fds (known_items known_names config_dict))
           | _ \<Rightarrow> Inl AttributeError))"

subsection \<open>The fragment of \<^verbatim>\<open>argparse\<close> that \<^verbatim>\<open>from_entrypoint\<close> drives\<close>

text \<open>
  A parser is the list of its registered optional actions, in registration order, each
  with its option strings, destination, default (\<open>None\<close> for \<^verbatim>\<open>argparse.SUPPRESS\<close>),
  kind and \<^verbatim>\<open>type\<close> converter. A fresh \<^verbatim>\<open>ArgumentParser()\<close> holds the help action.
  Positional actions, the separator \<^verbatim>\<open>--\<close> and clustered single-dash flags are outside
  the fragment: a command line that needs them is answered by \<open>Unmodelled\<close>.
\<close>

datatype nargs = OneArg | OneOrMore

datatype action_kind = Store nargs | BooleanOptional | Help

record 'f action =
  act_option_strings :: "string list"
  act_dest :: string
  act_default :: "'f pyval option"
  act_kind :: action_kind
  act_type :: "pytype option"

type_synonym 'f parser = "'f action list"

definition ArgumentParser :: "'f parser" where
  "ArgumentParser =
     [\<lparr>act_option_strings = [''-h'', ''--help''], act_dest = ''help'',
       act_default = None, act_kind = Help, act_type = None\<rparr>]"

text \<open>The keyword dictionary \<^verbatim>\<open>action\<close> that the inner \<^verbatim>\<open>_add_argument\<close> returns.\<close>

datatype action_class = StoreAction | BooleanOptionalAction

record 'f kwargs =
  kw_dest :: string
  kw_default :: "'f pyval"
  kw_action :: action_class
  kw_nargs_plus :: bool
  kw_type :: pytype

text \<open>
  The inner function \<^verbatim>\<open>_add_argument(field)\<close>. The help text mined from the docstring
  only feeds the usage message and is left out.
\<close>

definition add_argument :: "'f field \<Rightarrow> 'f kwargs" where
  "add_argument fd =
     (let ftype = strip_union (field_type fd);
          args = get_args ftype;
          dtype = topy ftype
      in \<lparr>kw_dest = field_name fd,
          kw_default = (case field_default fd of None \<Rightarrow> VMissing | Some d \<Rightarrow> d),
          kw_action = (if dtype = TBool then BooleanOptionalAction else StoreAction),
          kw_nargs_plus = (args \<noteq> []),
          kw_type = (if args \<noteq> [] then topy (hd args) else dtype)\<rparr>)"

text \<open>
  \<^verbatim>\<open>parser.add_argument(flag, **action)\<close>: \<^verbatim>\<open>BooleanOptionalAction\<close> takes no
  \<^verbatim>\<open>nargs\<close> and adds the \<^verbatim>\<open>--no-\<close> spelling; an option string that is already
  registered is a conflict.
\<close>

definition make_action :: "string \<Rightarrow> 'f kwargs \<Rightarrow> 'f action" where
  "make_action flag kw =
     \<lparr>act_option_strings = (if kw_action kw = BooleanOptionalAction
                             then [flag, ''--no-'' @ drop 2 flag] else [flag]),
      act_dest = kw_dest kw,
      act_default = Some (kw_default kw),
      act_kind = (if kw_action kw = BooleanOptionalAction then BooleanOptional
                  else Store (if kw_nargs_plus kw then OneOrMore else OneArg)),
      act_type = Some (kw_type kw)\<rparr>"

definition parser_add_argument :: "'f parser \<Rightarrow> string \<Rightarrow> 'f kwargs \<Rightarrow> error + 'f parser" where
  "parser_add_argument parser flag kw =
     (if kw_action kw = BooleanOptionalAction \<and> kw_nargs_plus kw then Inl TypeError
      else
        let action = make_action flag kw
        in if \<exists>a \<in> set parser. \<exists>s \<in> set (act_option_strings action). s \<in> set (act_option_strings a)
           then Inl ArgumentError
           else Inr (parser @ [action]))"

definition starts_with :: "string \<Rightarrow> string \<Rightarrow> bool" where
  "starts_with s p \<longleftrightarrow> take (length p) s = p"

definition is_digit :: "char \<Rightarrow> bool" where
  "is_digit c \<longleftrightarrow> digit_val c \<noteq> None"

text \<open>The pattern \<^verbatim>\<open>^-\d+$|^-\d*\.\d+$\<close> of argparse.\<close>

definition negative_number :: "string \<Rightarrow> bool" where
  "negative_number s =
     (case s of
        [] \<Rightarrow> False
      | c # cs \<Rightarrow>
          c = CHR ''-'' \<and>
          ((cs \<noteq> [] \<and> list_all is_digit cs) \<or>
           (case dropWhile is_digit cs of
              [] \<Rightarrow> False
            | d # ds \<Rightarrow> d = CHR ''.'' \<and> ds \<noteq> [] \<and> list_all is_digit ds)))"

definition find_option :: "'f parser \<Rightarrow> string \<Rightarrow> 'f action option" where
  "find_option parser s = find (\<lambda>a. s \<in> set (act_option_strings a)) parser"

datatype 'f parsed =
    NotOption | UnknownOption | AmbiguousOption | NotModelled
  | Option "'f action" string "string option"

definition option_tuples :: "'f parser \<Rightarrow> string \<Rightarrow> string option \<Rightarrow> 'f parsed list" where
  "option_tuples parser option_prefix explicit_arg =
     concat (map (\<lambda>a. map (\<lambda>s. Option a s explicit_arg)
                          (filter (\<lambda>s. starts_with s option_prefix) (act_option_strings a)))
                 parser)"

text \<open>
  \<^verbatim>\<open>_parse_optional\<close>: an exact option string, then \<^verbatim>\<open>--flag=value\<close>, then a unique
  abbreviation of a long option; what looks like a negative number or contains a space
  is an argument; anything else that starts with a dash is an unknown option.
\<close>

definition parse_optional :: "'f parser \<Rightarrow> string \<Rightarrow> 'f parsed" where
  "parse_optional parser arg_string =
     (if arg_string = [] then NotOption
      else if hd arg_string \<noteq> CHR ''-'' then NotOption
      else case find_option parser arg_string of
        Some a \<Rightarrow> Option a arg_string None
      | None \<Rightarrow>
          if length arg_string = 1 then NotOption
          else
            let option_string = takeWhile (\<lambda>c. c \<noteq> CHR ''='') arg_string;
                explicit_arg = (if CHR ''='' \<in> set arg_string
                                then Some (tl (dropWhile (\<lambda>c. c \<noteq> CHR ''='') arg_string))
                                else None);
                fallback = (if negative_number arg_string
                               \<and> \<not> (\<exists>a \<in> set parser. \<exists>s \<in> set (act_option_strings a). negative_number s)
                            then NotOption
                            else if CHR '' '' \<in> set arg_string then NotOption
                            else UnknownOption)
            in (case (if explicit_arg = None then None else find_option parser option_string) of
                  Some a \<Rightarrow> Option a option_string explicit_arg
                | None \<Rightarrow>
                    (if arg_string ! 1 = CHR ''-'' then
                       (case option_tuples parser option_string explicit_arg of
                          [] \<Rightarrow> fallback
                        | [tup] \<Rightarrow> tup
                        | _ \<Rightarrow> AmbiguousOption)
                     else if \<exists>a \<in> set parser. \<exists>s \<in> set (act_option_strings a).
                               s = take 2 arg_string \<or> starts_with s arg_string
                     then NotModelled
                     else fallback)))"

text \<open>
  \<^verbatim>\<open>_get_value\<close>: the \<^verbatim>\<open>type\<close> converter applied to one argument string; a TypeError or
  ValueError of the converter becomes the parser's error exit.
\<close>

definition get_value :: "'f py_ops \<Rightarrow> 'f action \<Rightarrow> string \<Rightarrow> error + 'f pyval" where
  "get_value ops action arg_string =
     (case act_type action of
        None \<Rightarrow> Inr (VStr arg_string)
      | Some type_func \<Rightarrow>
          (case py_call ops type_func (VStr arg_string) of
             Inl e \<Rightarrow> if e = TypeError \<or> e = ValueError then Inl (SystemExit 2) else Inl e
           | Inr v \<Rightarrow> Inr v))"

definition is_arg :: "'f parser \<Rightarrow> string \<Rightarrow> bool" where
  "is_arg parser s \<longleftrightarrow> parse_optional parser s = NotOption"

text \<open>
  The main loop of \<^verbatim>\<open>parse_known_args\<close> over the argument strings. An argument that no
  option consumes and an unknown option go to the extras, which \<^verbatim>\<open>from_entrypoint\<close>
  discards. The result is the namespace and the actions seen.
\<close>

function consume :: "'f py_ops \<Rightarrow> 'f parser \<Rightarrow> string list \<Rightarrow> (string \<times> 'f pyval) list \<Rightarrow> 'f action list
    \<Rightarrow> error + ((string \<times> 'f pyval) list \<times> 'f action list)" where
  "consume ops parser [] namespace seen = Inr (namespace, seen)"
| "consume ops parser (arg_string # rest) namespace seen =
     (case parse_optional parser arg_string of
        NotOption \<Rightarrow> consume ops parser rest namespace seen
      | UnknownOption \<Rightarrow> consume ops parser rest namespace seen
      | AmbiguousOption \<Rightarrow> Inl (SystemExit 2)
      | NotModelled \<Rightarrow> Inl Unmodelled
      | Option action option_string explicit_arg \<Rightarrow>
          (case act_kind action of
             Help \<Rightarrow> (if explicit_arg = None then Inl (SystemExit 0) else Inl (SystemExit 2))
           | BooleanOptional \<Rightarrow>
               if explicit_arg \<noteq> None then Inl (SystemExit 2)
               else consume ops parser rest
                      (AList.update (act_dest action)
                         (VBool (\<not> starts_with option_string ''--no-'')) namespace)
                      (action # seen)
           | Store OneArg \<Rightarrow>
               (case explicit_arg of
                  Some a \<Rightarrow>
                    (case get_value ops action a of
                       Inl e \<Rightarrow> Inl e
                     | Inr v \<Rightarrow> consume ops parser rest
                                  (AList.update (act_dest action) v namespace) (action # seen))
                | None \<Rightarrow>
                    if rest = [] \<or> \<not> is_arg parser (hd rest) then Inl (SystemExit 2)
                    else (case get_value ops action (hd rest) of
                            Inl e \<Rightarrow> Inl e
                          | Inr v \<Rightarrow> consume ops parser (tl rest)
                                       (AList.update (act_dest action) v namespace) (action # seen)))
           | Store OneOrMore \<Rightarrow>
               (case explicit_arg of
                  Some a \<Rightarrow>
                    (case get_value ops action a of
                       Inl e \<Rightarrow> Inl e
                     | Inr v \<Rightarrow> consume ops parser rest
                                  (AList.update (act_dest action) (VList [v]) namespace)
                                  (action # seen))
                | None \<Rightarrow>
                    if takeWhile (is_arg parser) rest = [] then Inl (SystemExit 2)
                    else (case mapM (get_value ops action) (takeWhile (is_arg parser) rest) of
                            Inl e \<Rightarrow> Inl e
                          | Inr vs \<Rightarrow> consume ops parser (dropWhile (is_arg parser) rest)
                                        (AList.update (act_dest action) (VList vs) namespace)
                                        (action # seen)))))"
  by pat_completeness auto
termination
  by (relation "measure (\<lambda>(ops, parser, argv, namespace, seen). length argv)")
     (auto simp: less_Suc_eq_le length_dropWhile_le)

text \<open>The defaults are put into the namespace first; the first action of a destination wins.\<close>

fun init_namespace :: "'f parser \<Rightarrow> (string \<times> 'f pyval) list \<Rightarrow> (string \<times> 'f pyval) list" where
  "init_namespace [] namespace = namespace"
| "init_namespace (action # actions) namespace =
     init_namespace actions
       (case act_default action of
          None \<Rightarrow> namespace
        | Some d \<Rightarrow>
            if map_of namespace (act_dest action) = None
            then AList.update (act_dest action) d namespace else namespace)"

text \<open>
  After the loop, the default of an action that was not seen is converted with the
  action's \<^verbatim>\<open>type\<close> when it is a string and still is the value in the namespace.
\<close>

fun convert_defaults :: "'f py_ops \<Rightarrow> 'f action list \<Rightarrow> 'f action list \<Rightarrow> (string \<times> 'f pyval) list
    \<Rightarrow> error + (string \<times> 'f pyval) list" where
  "convert_defaults ops [] seen namespace = Inr namespace"
| "convert_defaults ops (action # actions) seen namespace =
     (case act_default action of
        Some (VStr s) \<Rightarrow>
          if action \<notin> set seen \<and> map_of namespace (act_dest action) = Some (VStr s)
          then (case get_value ops action s of
                  Inl e \<Rightarrow> Inl e
                | Inr v \<Rightarrow> convert_defaults ops actions seen
                             (AList.update (act_dest action) v namespace))
          else convert_defaults ops actions seen namespace
      | _ \<Rightarrow> convert_defaults ops actions seen namespace)"

definition parse_known_args :: "'f py_ops \<Rightarrow> 'f parser \<Rightarrow> string list \<Rightarrow> error + (string \<times> 'f pyval) list" where
  "parse_known_args ops parser argv =
     (if ''--'' \<in> set argv \<or> (\<exists>s \<in> set argv. parse_optional parser s = NotModelled)
      then Inl Unmodelled
      else if \<exists>s \<in> set argv. parse_optional parser s = AmbiguousOption then Inl (SystemExit 2)
      else case consume ops parser argv (init_namespace parser []) [] of
             Inl e \<Rightarrow> Inl e
           | Inr (namespace, seen) \<Rightarrow> convert_defaults ops parser seen namespace)"

subsection \<open>\<^verbatim>\<open>Config.from_entrypoint\<close>\<close>

text \<open>The loop that registers one flag \<^verbatim>\<open>--<name>\<close> for every field.\<close>

fun add_arguments :: "'f field list \<Rightarrow> 'f parser \<Rightarrow> error + 'f parser" where
  "add_arguments [] parser = Inr parser"
| "add_arguments (fd # fds) parser =
     (case parser_add_argument parser (''--'' @ field_name fd) (add_argument fd) of
        Inl e \<Rightarrow> Inl e
      | Inr parser' \<Rightarrow> add_arguments fds parser')"

text \<open>
  \<open>argv\<close> is the argument list of the process, \<^verbatim>\<open>sys.argv[1:]\<close>, which
  \<^verbatim>\<open>parse_known_args()\<close> reads.
\<close>

definition from_entrypoint :: "'f py_ops \<Rightarrow> 'f field list \<Rightarrow> 'f parser option \<Rightarrow> string list
    \<Rightarrow> error + 'f config" where
  "from_entrypoint ops fds parser argv =
     (let parser = (case parser of None \<Rightarrow> ArgumentParser | Some p \<Rightarrow> p);
          known_args = map field_name fds
      in case add_arguments fds parser of
           Inl e \<Rightarrow> Inl e
         | Inr parser' \<Rightarrow>
             (case parse_known_args ops parser' argv of
                Inl e \<Rightarrow> Inl e
              | Inr namespace \<Rightarrow>
                  cls ops fds (filter (\<lambda>(k, v). k \<in> set known_args) namespace)))"

subsection \<open>Schemas, per-field results and an instance of the runtime\<close>

text \<open>
  What one iteration of the cast loop computes for a field whose attribute holds
  \<open>value\<close>: the schema error or the cast value. \<open>cast_all\<close> is the field-wise result
  for the attribute values in declaration order.
\<close>

definition field_result :: "'f py_ops \<Rightarrow> 'f field \<Rightarrow> 'f pyval \<Rightarrow> error + 'f pyval" where
  "field_result ops fd value =
     (if topy (strip_union (field_type fd)) \<notin> set valid_types
      then Inl (SchemaTypeError (field_type fd))
      else cast_value ops (field_type fd) value)"

definition cast_all :: "'f py_ops \<Rightarrow> 'f field list \<Rightarrow> 'f pyval list \<Rightarrow> error + 'f pyval list" where
  "cast_all ops fds vals = mapM (\<lambda>(fd, v). field_result ops fd v) (zip fds vals)"

text \<open>
  The flat and homogeneous declarations of the data model: a scalar kind, a sequence,
  tuple or set of a scalar kind, or a union whose first alternative is one of these
  (\<^verbatim>\<open>Optional\<close>). A schema is flat when its names differ and all its fields are flat.
\<close>

definition scalar_types :: "pytype list" where
  "scalar_types = [TInt, TFloat, TBool, TStr]"

definition flat_type :: "pytype \<Rightarrow> bool" where
  "flat_type t =
     (case strip_union t of
        Generic origin args \<Rightarrow>
          origin \<in> set [TList, TTuple, TSet, TSequence] \<and> args \<noteq> [] \<and> hd args \<in> set scalar_types
      | s \<Rightarrow> s \<in> set scalar_types)"

definition flat_schema :: "'f field list \<Rightarrow> bool" where
  "flat_schema fds \<longleftrightarrow>
     distinct (map field_name fds) \<and> list_all (\<lambda>fd. flat_type (field_type fd)) fds"

text \<open>
  The raw value that \<^verbatim>\<open>load\<close> hands to a field: the override, else the value stored in
  the file, else the declared default.
\<close>

definition raw_value :: "'f field \<Rightarrow> ('f pyval \<times> 'f pyval) list \<Rightarrow> (string \<times> 'f pyval) list \<Rightarrow> 'f pyval option" where
  "raw_value fd config_dict kwargs =
     (case map_of kwargs (field_name fd) of
        Some v \<Rightarrow> Some v
      | None \<Rightarrow>
          (case map_of config_dict (VStr (field_name fd)) of
             Some v \<Rightarrow> Some v
           | None \<Rightarrow>
               (case field_default fd of
                  Some d \<Rightarrow> Some d
                | None \<Rightarrow> field_default_factory fd)))"

text \<open>
  An instance of the runtime parameters on which the examples are evaluated: floats are
  exact decimal fractions, the textual forms are placeholders, and other objects cannot
  be called.
\<close>

definition decimal_of_str :: "string \<Rightarrow> real option" where
  "decimal_of_str s =
     (let t = strip s;
          signed = (t \<noteq> [] \<and> (hd t = CHR ''-'' \<or> hd t = CHR ''+''));
          body = (if signed then tl t else t);
          ip = takeWhile (\<lambda>c. c \<noteq> CHR ''.'') body;
          fp = drop 1 (dropWhile (\<lambda>c. c \<noteq> CHR ''.'') body)
      in if \<not> list_all is_digit (ip @ fp) then None
         else case parse_nat (ip @ fp) of
                None \<Rightarrow> None
              | Some n \<Rightarrow>
                  Some ((if signed \<and> hd t = CHR ''-'' then - 1 else 1) * real n / 10 ^ length fp))"

definition example_ops :: "real py_ops" where
  "example_ops =
     \<lparr>float_of_str = decimal_of_str,
      float_of_int = (\<lambda>i. Some (real_of_int i)),
      int_of_float = (\<lambda>x. Inr (if x < 0 then \<lceil>x\<rceil> else \<lfloor>x\<rfloor>)),
      float_is_zero = (\<lambda>x. x = 0),
      str_of_float = (\<lambda>x. ''<float>''),
      repr_other = (\<lambda>v. ''<object>''),
      repr_map = ''<map object>'',
      call_other = (\<lambda>t v. Inl TypeError)\<rparr>"

text \<open>
  The action that \<^verbatim>\<open>from_entrypoint\<close> registers for a field, and what
  \<^verbatim>\<open>parse_known_args\<close> leaves in the namespace for a field whose flag is not on the
  command line: the default, converted with the \<^verbatim>\<open>type\<close> of the flag when it is a
  string.
\<close>

definition field_action :: "'f field \<Rightarrow> 'f action" where
  "field_action fd = make_action (''--'' @ field_name fd) (add_argument fd)"

definition namespace_default :: "'f py_ops \<Rightarrow> 'f field \<Rightarrow> error + 'f pyval" where
  "namespace_default ops fd =
     (case field_default fd of
        Some (VStr s) \<Rightarrow> get_value ops (field_action fd) s
      | Some d \<Rightarrow> Inr d
      | None \<Rightarrow> Inr VMissing)"

text \<open>The schemas and the file of the scenarios.\<close>

definition mk_field :: "string \<Rightarrow> pytype \<Rightarrow> 'f pyval option \<Rightarrow> 'f field" where
  "mk_field name t d =
     \<lparr>field_name = name, field_type = t, field_default = d, field_default_factory = None\<rparr>"

definition lr_seeds_schema :: "pytype \<Rightarrow> 'f \<Rightarrow> 'f field list" where
  "lr_seeds_schema seeds_type lr0 =
     [mk_field ''lr'' TFloat (Some (VFloat lr0)),
      mk_field ''seeds'' seeds_type (Some (VTuple [VInt 1, VInt 2, VInt 3]))]"


definition run_schema :: "'f field list" where
  "run_schema = [mk_field ''n'' TInt (Some (VInt 0)), mk_field ''name'' TStr None]"

definition run_dict :: "('f pyval \<times> 'f pyval) list" where
  "run_dict = [(VStr ''n'', VInt 1), (VStr ''name'', VStr ''run1'')]"

definition run_files :: "'f filesystem" where
  "run_files = \<lparr>files = [''run.yaml'' \<mapsto> Yaml (VDict run_dict)], writable = (\<lambda>p. True)\<rparr>"

definition strings_schema :: "'f field list" where
  "strings_schema = [mk_field ''xs'' (Generic TList [TInt]) (Some (VStr ''12''))]"

section \<open>Properties\<close>

subsection \<open>The cast loop, field by field\<close>

text \<open>
  With pairwise different field names, the loop of \<^verbatim>\<open>__post_init__\<close> over an object that
  holds exactly the fields computes \<open>cast_all\<close>: every field is cast on its own, and the
  first failure is the result.
\<close>

lemmas typing_simps = topy_def strip_union_def valid_types_def ValidType_def

lemma mapM_Inr_iff: "mapM f xs = Inr ys \<longleftrightarrow> list_all2 (\<lambda>x y. f x = Inr y) xs ys"
proof (induction xs arbitrary: ys)
  case Nil
  then show ?case by auto
next
  case (Cons x xs)
  show ?case
  proof (cases "f x")
    case (Inl e)
    then show ?thesis by (simp add: list_all2_Cons1)
  next
    case fx: (Inr y)
    show ?thesis
    proof (cases "mapM f xs")
      case (Inl e)
      then have "\<not> list_all2 (\<lambda>x y. f x = Inr y) xs zs" for zs
        using Cons.IH[of zs] by simp
      then show ?thesis using fx Inl by (simp add: list_all2_Cons1)
    next
      case (Inr zs)
      then have "list_all2 (\<lambda>x y. f x = Inr y) xs ws \<longleftrightarrow> ws = zs" for ws
        using Cons.IH[of ws] by auto
      then show ?thesis using fx Inr by (auto simp: list_all2_Cons1)
    qed
  qed
qed

lemma update_middle:
  "n \<notin> fst ` set done \<Longrightarrow> AList.update n w (done @ (n, v) # todo) = done @ (n, w) # todo"
  by (induction "done") auto

lemma map_of_middle:
  "n \<notin> fst ` set done \<Longrightarrow> map_of (done @ (n, v) # todo) n = Some v"
  by (induction "done") auto

lemma post_init_field_result:
  assumes "field_name fd \<notin> fst ` set done"
  shows "post_init_field ops fd (done @ (field_name fd, v) # todo) =
     (case field_result ops fd v of Inl e \<Rightarrow> Inl e | Inr w \<Rightarrow> Inr (done @ (field_name fd, w) # todo))"
  by (simp add: post_init_field_def field_result_def getattr_def setattr_def
      map_of_middle[OF assms] update_middle[OF assms] del: map_of_append split: sum.splits)

lemma post_init_loop_cast_all:
  assumes "distinct (map field_name fds)" "map fst todo = map field_name fds"
    "fst ` set done \<inter> set (map field_name fds) = {}"
  shows "post_init_loop ops fds (done @ todo) =
     (case cast_all ops fds (map snd todo) of
        Inl e \<Rightarrow> Inl e
      | Inr vs \<Rightarrow> Inr (done @ zip (map field_name fds) vs))"
  using assms
proof (induction fds arbitrary: "done" todo)
  case Nil
  then show ?case by (simp add: cast_all_def)
next
  case (Cons fd fds)
  from Cons.prems(2) obtain v todo' where todo: "todo = (field_name fd, v) # todo'"
    and rest: "map fst todo' = map field_name fds"
    by (cases todo) auto
  from Cons.prems(3) have notin: "field_name fd \<notin> fst ` set done" by auto
  show ?case
  proof (cases "field_result ops fd v")
    case (Inl e)
    then show ?thesis
      by (simp add: todo post_init_field_result[OF notin] cast_all_def)
  next
    case (Inr w)
    have disj: "fst ` set (done @ [(field_name fd, w)]) \<inter> set (map field_name fds) = {}"
      using Cons.prems(1,3) by auto
    have dist: "distinct (map field_name fds)" using Cons.prems(1) by simp
    have step: "post_init_loop ops (fd # fds) (done @ todo) =
        post_init_loop ops fds ((done @ [(field_name fd, w)]) @ todo')"
      by (simp add: todo post_init_field_result[OF notin] Inr)
    show ?thesis
      unfolding step Cons.IH[OF dist rest disj]
      using Inr by (simp add: todo cast_all_def split: sum.splits)
  qed
qed

lemma post_init_cast_all:
  assumes "distinct (map field_name fds)" "map fst self = map field_name fds"
  shows "post_init ops fds self =
     (case cast_all ops fds (map snd self) of
        Inl e \<Rightarrow> Inl e
      | Inr vs \<Rightarrow> Inr (zip (map field_name fds) vs))"
  using post_init_loop_cast_all[where fds = fds and todo = self and ?done = "[]" and ops = ops] assms
  by (simp add: post_init_def split: sum.splits)

lemma cast_all_length: "cast_all ops fds vals = Inr vs \<Longrightarrow> length vs = min (length fds) (length vals)"
  by (auto simp: cast_all_def mapM_Inr_iff dest: list_all2_lengthD)

lemma dataclass_init_keys:
  "dataclass_init fds kwargs = Inr self \<Longrightarrow> map fst self = map field_name fds"
proof -
  have "mapM (init_value kwargs) fds = Inr self \<Longrightarrow> map fst self = map field_name fds"
  proof (induction fds arbitrary: self)
    case Nil then show ?case by simp
  next
    case (Cons fd fds)
    then show ?case
      by (auto simp: init_value_def split: sum.splits option.splits)
  qed
  then show "dataclass_init fds kwargs = Inr self \<Longrightarrow> map fst self = map field_name fds"
    by (auto simp: dataclass_init_def split: if_splits)
qed

lemma cls_eq:
  assumes "distinct (map field_name fds)"
  shows "cls ops fds kwargs =
    (case dataclass_init fds kwargs of Inl e \<Rightarrow> Inl e
     | Inr self \<Rightarrow> (case cast_all ops fds (map snd self) of Inl e \<Rightarrow> Inl e
        | Inr vs \<Rightarrow> Inr (zip (map field_name fds) vs)))"
  by (auto simp: cls_def post_init_cast_all[OF assms dataclass_init_keys] split: sum.splits)

lemma mapM_lookup_self:
  assumes "distinct (map fst self)"
  shows "mapM (\<lambda>n. case map_of self n of None \<Rightarrow> Inl e0 | Some v \<Rightarrow> Inr (n, v)) (map fst self) = Inr self"
  using assms
proof -
  have "list_all2 (\<lambda>n y. (case map_of self n of None \<Rightarrow> Inl e0| Some v \<Rightarrow> Inr (n, v)) = Inr y) (map fst self) self"
    unfolding list_all2_conv_all_nth
  proof (intro conjI allI impI)
    show "length (map fst self) = length self" by simp
    fix i assume "i < length (map fst self)"
    then have i: "i < length self" by simp
    then have "self ! i \<in> set self" by simp
    then have "map_of self (fst (self ! i)) = Some (snd (self ! i))"
      using assms by (metis map_of_is_SomeI prod.collapse)
    then show "(case map_of self (map fst self ! i) of None \<Rightarrow> Inl e0 | Some v \<Rightarrow> Inr (map fst self ! i, v)) = Inr (self ! i)"
      using i by simp
  qed
  then show ?thesis by (simp add: mapM_Inr_iff)
qed

lemma mapM_map: "mapM f (map g xs) = mapM (f \<circ> g) xs"
  by (induction xs) (auto split: sum.splits)

lemma mapM_cong: "(\<And>x. x \<in> set xs \<Longrightarrow> f x = g x) \<Longrightarrow> mapM f xs = mapM g xs"
  by (induction xs) (auto split: sum.splits)

lemma dataclass_init_self:
  assumes "distinct (map field_name fds)" "map fst self = map field_name fds"
  shows "dataclass_init fds self = Inr self"
proof -
  have d: "distinct (map fst self)" using assms by simp
  have "mapM (init_value self) fds
      = mapM (\<lambda>n. case map_of self n of None \<Rightarrow> Inl TypeError | Some v \<Rightarrow> Inr (n, v)) (map field_name fds)"
    unfolding mapM_map
  proof (rule mapM_cong)
    fix fd assume "fd \<in> set fds"
    then have "field_name fd \<in> fst ` set self"
      using assms(2) by (metis image_eqI list.set_map)
    then obtain v where "map_of self (field_name fd) = Some v"
      by (metis domD dom_map_of_conv_image_fst)
    then show "init_value self fd = ((\<lambda>n. case map_of self n of None \<Rightarrow> Inl TypeError | Some v \<Rightarrow> Inr (n, v)) \<circ> field_name) fd"
      by (simp add: init_value_def)
  qed
  also have "\<dots> = Inr self"
    using mapM_lookup_self[OF d] assms(2) by simp
  finally show ?thesis
    using assms(2) by (simp add: dataclass_init_def)
qed


lemma cast_all_Inr_iff:
  assumes "length vals = length fds"
  shows "cast_all ops fds vals = Inr vs \<longleftrightarrow>
     length vs = length fds \<and> (\<forall>i < length fds. field_result ops (fds ! i) (vals ! i) = Inr (vs ! i))"
  using assms by (auto simp: cast_all_def mapM_Inr_iff list_all2_conv_all_nth)

lemma py_call_scalar_fixed:
  assumes "t \<in> set scalar_types" "py_call ops t v = Inr w"
  shows "py_call ops t w = Inr w \<and> yaml_data w = Inr w \<and> w \<noteq> VNone"
proof -
  consider "t = TInt" | "t = TFloat" | "t = TBool" | "t = TStr"
    using assms(1) by (auto simp: scalar_types_def)
  then show ?thesis
  proof cases
    case 1
    then show ?thesis using assms(2) by (cases v) (auto split: sum.splits option.splits)
  next
    case 2
    then show ?thesis using assms(2) by (cases v) (auto split: sum.splits option.splits)
  next
    case 3
    then show ?thesis using assms(2) by auto
  next
    case 4
    then show ?thesis using assms(2) by auto
  qed
qed

lemma yaml_data_list_fixed:
  "(\<And>y. y \<in> set ys \<Longrightarrow> yaml_data y = Inr y) \<Longrightarrow> yaml_data_list ys = Inr ys"
  by (induction ys) auto

lemma mapM_fixed:
  "(\<And>y. y \<in> set ys \<Longrightarrow> f y = Inr y) \<Longrightarrow> mapM f ys = Inr ys"
  by (induction ys) auto

lemma mapM_scalar_fixed:
  assumes "t \<in> set scalar_types" "mapM (py_call ops t) xs = Inr ys"
  shows "mapM (py_call ops t) ys = Inr ys \<and> yaml_data_list ys = Inr ys"
proof -
  have all2: "list_all2 (\<lambda>x y. py_call ops t x = Inr y) xs ys"
    using assms(2) by (simp add: mapM_Inr_iff)
  have "py_call ops t y = Inr y \<and> yaml_data y = Inr y" if "y \<in> set ys" for y
  proof -
    from that obtain i where i: "i < length ys" and y: "y = ys ! i"
      by (auto simp: in_set_conv_nth)
    have "py_call ops t (xs ! i) = Inr y"
      using list_all2_nthD2[OF all2 i] y by simp
    then show ?thesis
      using py_call_scalar_fixed[OF assms(1)] by blast
  qed
  then show ?thesis by (simp add: mapM_fixed yaml_data_list_fixed)
qed

lemma scalar_valid: "t \<in> set scalar_types \<Longrightarrow> topy t = t \<and> get_args t = [] \<and> t \<in> set valid_types"
  by (auto simp: scalar_types_def topy_def valid_types_def ValidType_def)

lemma field_result_fixed:
  assumes flat: "flat_type (field_type fd)" and res: "field_result ops fd v = Inr w"
  shows "field_result ops fd w = Inr w \<and> (\<exists>u. yaml_data w = Inr u \<and> field_result ops fd u = Inr w)"
proof (cases "strip_union (field_type fd) \<in> set scalar_types")
  case True
  note sv = scalar_valid[OF True]
  have fr: "field_result ops fd x =
      (if get_origin (field_type fd) = Some TUnionForm \<and> x = VNone then Inr VNone
       else py_call ops (strip_union (field_type fd)) x)" for x
    using sv by (simp add: field_result_def cast_value_def)
  show ?thesis
  proof (cases "get_origin (field_type fd) = Some TUnionForm \<and> v = VNone")
    case True
    then have "w = VNone" using res fr by simp
    then show ?thesis using True fr by simp
  next
    case False
    then have "py_call ops (strip_union (field_type fd)) v = Inr w" using res fr by auto
    from py_call_scalar_fixed[OF True this] show ?thesis using fr by auto
  qed
next
  case False
  then obtain origin a as where st: "strip_union (field_type fd) = Generic origin (a # as)"
    and a: "a \<in> set scalar_types"
    using flat by (auto simp: flat_type_def neq_Nil_conv split: pytype.splits)
  have valid: "origin \<in> set valid_types"
    using res by (auto simp: field_result_def st topy_def split: if_splits)
  then have origin: "origin = TList \<or> origin = TTuple"
    using flat False st by (auto simp: flat_type_def valid_types_def ValidType_def topy_def)
  have ta: "topy a = a" using scalar_valid[OF a] by simp
  have fr: "field_result ops fd x =
      (case py_iter x of None \<Rightarrow> Inl TypeError
       | Some xs \<Rightarrow> construct ops origin (MapObject a xs))" for x
    using valid by (simp add: field_result_def cast_value_def st topy_def[of "Generic _ _"] ta py_map_def
        split: option.splits)
  from res obtain xs where xs: "py_iter v = Some xs" and c: "construct ops origin (MapObject a xs) = Inr w"
    by (auto simp: fr split: option.splits)
  from origin c obtain ys where ys: "mapM (py_call ops a) xs = Inr ys"
    and w: "w = (if origin = TList then VList ys else VTuple ys)"
    by (auto split: sum.splits)
  note fx = mapM_scalar_fixed[OF a ys]
  have 1: "field_result ops fd w = Inr w"
    using origin fx by (auto simp: fr w)
  have 2: "yaml_data w = Inr (VList ys)" using fx by (simp add: w)
  have 3: "field_result ops fd (VList ys) = Inr w"
    using origin fx by (auto simp: fr w)
  show ?thesis using 1 2 3 by blast
qed

lemma cls_Inr_iff:
  assumes "distinct (map field_name fds)"
  shows "cls ops fds kwargs = Inr x \<longleftrightarrow>
    (\<exists>self vs. dataclass_init fds kwargs = Inr self \<and> cast_all ops fds (map snd self) = Inr vs
        \<and> x = zip (map field_name fds) vs)"
  by (auto simp: cls_eq[OF assms] split: sum.splits)

lemma dataclass_init_length: "dataclass_init fds kwargs = Inr self \<Longrightarrow> length self = length fds"
proof -
  assume "dataclass_init fds kwargs = Inr self"
  then have "length (map fst self) = length (map field_name fds)"
    by (simp add: dataclass_init_keys)
  then show ?thesis by simp
qed

lemmas cls_simps = cls_def dataclass_init_def init_value_def post_init_def post_init_field_def
  cast_value_def getattr_def setattr_def mk_field_def py_map_def

lemmas parse_simps = from_entrypoint_def ArgumentParser_def add_argument_def parser_add_argument_def
  make_action_def parse_known_args_def parse_optional_def find_option_def option_tuples_def starts_with_def
  negative_number_def is_digit_def digit_val_def get_value_def is_arg_def

lemmas int_simps = int_of_str_def strip_def is_space_def parse_nat_def

lemma example_float_of_str: "float_of_str example_ops ''0.01'' = Some (1 / 100)"
  by (simp add: example_ops_def decimal_of_str_def strip_def is_space_def parse_nat_def
      is_digit_def digit_val_def)

subsection \<open>Boolean fields\<close>



subsection \<open>Optional fields\<close>

lemma optional_scalar_none_kept:
  assumes "strip_union t \<in> set scalar_types" "get_origin t = Some TUnionForm"
  shows "cls ops [mk_field name t d] [(name, VNone)] = Inr [(name, VNone)]"
  using assms scalar_valid[OF assms(1)] by (simp add: cls_simps)

text \<open>
  C5. The claim holds for a scalar \<^verbatim>\<open>T\<close> (\<open>optional_scalar_none_kept\<close>) and fails for a
  flat container: constructing a field declared \<^verbatim>\<open>Optional[List[int]]\<close> with the raw
  value \<^verbatim>\<open>None\<close> raises TypeError, because \<^verbatim>\<open>map(int, None)\<close> on line 59 runs before
  the test for \<^verbatim>\<open>None\<close> on line 62.
\<close>

theorem optional_container_none_raises:
  "cls ops [mk_field name (TUnion (Generic TList [TInt]) [TNoneType]) d] [(name, VNone)]
     = Inl TypeError"
  by (simp add: cls_simps typing_simps)

theorem optional_container_none_raises_witness:
  "cls example_ops [mk_field ''xs'' (TUnion (Generic TList [TInt]) [TNoneType]) (Some VNone)]
       [(''xs'', VNone)] = Inl TypeError"
  using optional_container_none_raises[of example_ops "''xs''" "Some VNone"] by simp

subsection \<open>Which declarations are rejected\<close>

text \<open>
  C6. A field declared as a set of a scalar kind is rejected: \<^verbatim>\<open>set\<close> is not among the
  origins of \<^verbatim>\<open>_ValidType\<close>, although the docstring of the class lists list, tuple and
  set as the supported containers. Construction raises the schema error whatever the
  value is.
\<close>

theorem set_field_rejected:
  "cls ops [mk_field name (Generic TSet [t]) d] [(name, v)]
     = Inl (SchemaTypeError (Generic TSet [t]))"
  by (simp add: cls_simps typing_simps)

theorem set_field_rejected_witness:
  "cls example_ops [mk_field ''tags'' (Generic TSet [TInt]) None]
       [(''tags'', VSet [VInt 1, VInt 2])] = Inl (SchemaTypeError (Generic TSet [TInt]))"
  using set_field_rejected[of example_ops "''tags''" TInt None "VSet [VInt 1, VInt 2]"] by simp

lemma post_init_loop_invalid:
  assumes "fd \<in> set fds" "topy (strip_union (field_type fd)) \<notin> set valid_types"
  shows "post_init_loop ops fds self \<noteq> Inr x"
  using assms
proof (induction fds arbitrary: self)
  case Nil
  then show ?case by simp
next
  case (Cons g fds)
  show ?case
  proof (cases "post_init_field ops g self")
    case (Inl e)
    then show ?thesis by simp
  next
    case (Inr self')
    then have "g \<noteq> fd"
      using Cons.prems(2) by (auto simp: post_init_field_def)
    then have "fd \<in> set fds" using Cons.prems(1) by simp
    from Cons.IH[OF this Cons.prems(2)] show ?thesis using Inr by simp
  qed
qed

text \<open>
  C2, as the code has it. The schema error is raised for a field whose declared type,
  after a union is replaced by its first alternative, has an origin outside int, float,
  bool, str, list and tuple: the iteration of the loop for that field raises
  \<^verbatim>\<open>TypeError(field.type, ...)\<close>, and no construction of a schema with such a field
  succeeds. A union is judged by its first alternative and the arguments of a list or
  tuple are not inspected, so \<^verbatim>\<open>Union[int, str]\<close> and \<^verbatim>\<open>List[List[int]]\<close> are accepted.
\<close>

theorem unsupported_origin_rejected:
  assumes "fd \<in> set fds" "topy (strip_union (field_type fd)) \<notin> set valid_types"
  shows "post_init_field ops fd self = Inl (SchemaTypeError (field_type fd))
    \<and> (\<forall>x. cls ops fds kwargs \<noteq> Inr x)"
  using assms post_init_loop_invalid[OF assms]
  by (auto simp: post_init_field_def cls_def post_init_def split: sum.splits)

theorem unsupported_origin_rejected_witness:
  "post_init_field example_ops (mk_field ''table'' (Generic TDict [TStr, TInt]) None) [] =
      Inl (SchemaTypeError (Generic TDict [TStr, TInt]))
   \<and> (\<forall>x. cls example_ops [mk_field ''n'' TInt None, mk_field ''table'' (Generic TDict [TStr, TInt]) None]
          [(''n'', VInt 1), (''table'', VDict [])] \<noteq> Inr x)"
  using unsupported_origin_rejected[of "mk_field ''table'' (Generic TDict [TStr, TInt]) None"
      "[mk_field ''n'' TInt None, mk_field ''table'' (Generic TDict [TStr, TInt]) None]"
      example_ops "[]" "[(''n'', VInt 1), (''table'', VDict [])]"]
  by (simp add: mk_field_def typing_simps)

theorem heterogeneous_union_and_nested_list_accepted:
  "cls example_ops [mk_field ''x'' (TUnion TInt [TStr]) None] [(''x'', VInt 3)] = Inr [(''x'', VInt 3)]
   \<and> cls example_ops [mk_field ''m'' (Generic TList [Generic TList [TInt]]) None]
        [(''m'', VList [VList [VInt 1, VInt 2], VList [VInt 3]])]
      = Inr [(''m'', VList [VList [VInt 1, VInt 2], VList [VInt 3]])]"
  by (simp add: cls_simps typing_simps)

subsection \<open>Command-line scenarios\<close>

text \<open>
  C1, as the code has it. With the arguments \<^verbatim>\<open>--lr 0.01 --seeds 4 5\<close> and the field
  \<^verbatim>\<open>seeds\<close> declared \<^verbatim>\<open>Tuple[int, ...]\<close>, \<^verbatim>\<open>from_entrypoint\<close> returns \<^verbatim>\<open>lr\<close> equal to
  the float that \<^verbatim>\<open>0.01\<close> denotes and \<^verbatim>\<open>seeds\<close> equal to the tuple \<^verbatim>\<open>(4, 5)\<close>. With
  \<^verbatim>\<open>seeds\<close> declared \<^verbatim>\<open>Sequence[int]\<close> it raises the schema error: the origin
  \<^verbatim>\<open>collections.abc.Sequence\<close> is none of the six supported ones.
\<close>

theorem entrypoint_lr_seeds:
  assumes "float_of_str ops ''0.01'' = Some x"
  shows "from_entrypoint ops (lr_seeds_schema (Generic TTuple [TInt, TEllipsis]) lr0) None
           [''--lr'', ''0.01'', ''--seeds'', ''4'', ''5'']
         = Inr [(''lr'', VFloat x), (''seeds'', VTuple [VInt 4, VInt 5])]
    \<and> from_entrypoint ops (lr_seeds_schema (Generic TSequence [TInt]) lr0) None
           [''--lr'', ''0.01'', ''--seeds'', ''4'', ''5'']
         = Inl (SchemaTypeError (Generic TSequence [TInt]))"
  using assms
  by (simp add: lr_seeds_schema_def parse_simps cls_simps typing_simps int_simps)

theorem entrypoint_lr_seeds_witness:
  "from_entrypoint example_ops (lr_seeds_schema (Generic TTuple [TInt, TEllipsis]) (1 / 1000)) None
           [''--lr'', ''0.01'', ''--seeds'', ''4'', ''5'']
         = Inr [(''lr'', VFloat (1 / 100)), (''seeds'', VTuple [VInt 4, VInt 5])]"
  using entrypoint_lr_seeds[OF example_float_of_str, of "1 / 1000"] by simp

theorem entrypoint_sequence_field_raises:
  "from_entrypoint example_ops (lr_seeds_schema (Generic TSequence [TInt]) (1 / 1000)) None
           [''--lr'', ''0.01'', ''--seeds'', ''4'', ''5'']
         = Inl (SchemaTypeError (Generic TSequence [TInt]))"
  using example_float_of_str
  by (simp add: lr_seeds_schema_def parse_simps cls_simps typing_simps int_simps)




subsection \<open>Idempotence of the cast pass\<close>

text \<open>
  C10. For a flat schema, an instance whose construction succeeded is a fixed point of
  construction: constructing again from its stored field values succeeds and returns
  the same values.
\<close>

theorem cast_pass_idempotent:
  assumes flat: "flat_schema fds" and x: "cls ops fds kwargs = Inr x"
  shows "cls ops fds x = Inr x"
proof -
  have dist: "distinct (map field_name fds)" using flat by (simp add: flat_schema_def)
  from x obtain self vs where init: "dataclass_init fds kwargs = Inr self"
    and cast: "cast_all ops fds (map snd self) = Inr vs"
    and xeq: "x = zip (map field_name fds) vs"
    unfolding cls_Inr_iff[OF dist] by blast
  have len: "length (map snd self) = length fds" using dataclass_init_length[OF init] by simp
  from cast have lvs: "length vs = length fds"
    and each: "\<And>i. i < length fds \<Longrightarrow> field_result ops (fds ! i) (map snd self ! i) = Inr (vs ! i)"
    unfolding cast_all_Inr_iff[OF len] by auto
  have keys: "map fst x = map field_name fds" using lvs by (simp add: xeq)
  have vals: "map snd x = vs" using lvs by (simp add: xeq)
  have "cast_all ops fds vs = Inr vs"
    unfolding cast_all_Inr_iff[OF lvs]
  proof (intro conjI allI impI)
    show "length vs = length fds" by (rule lvs)
    fix i assume i: "i < length fds"
    then have "flat_type (field_type (fds ! i))"
      using flat by (simp add: flat_schema_def list_all_length)
    from field_result_fixed[OF this each[OF i]]
    show "field_result ops (fds ! i) (vs ! i) = Inr (vs ! i)" by blast
  qed
  then show ?thesis
    unfolding cls_Inr_iff[OF dist]
    using dataclass_init_self[OF dist keys] vals xeq by auto
qed

lemma example_flat:
  "flat_schema (lr_seeds_schema (Generic TTuple [TInt, TEllipsis]) (1 / 1000) :: real field list)"
  by (simp add: flat_schema_def flat_type_def lr_seeds_schema_def mk_field_def strip_union_def
      scalar_types_def)

lemma example_cls:
  "cls example_ops (lr_seeds_schema (Generic TTuple [TInt, TEllipsis]) (1 / 1000))
        [(''lr'', VInt 2), (''seeds'', VStr ''45'')]
      = Inr [(''lr'', VFloat 2), (''seeds'', VTuple [VInt 4, VInt 5])]"
  by (simp add: lr_seeds_schema_def cls_simps typing_simps int_simps digit_val_def example_ops_def)

theorem cast_pass_idempotent_witness:
  "flat_schema (lr_seeds_schema (Generic TTuple [TInt, TEllipsis]) (1 / 1000) :: real field list)
   \<and> cls example_ops (lr_seeds_schema (Generic TTuple [TInt, TEllipsis]) (1 / 1000))
        [(''lr'', VInt 2), (''seeds'', VStr ''45'')]
      = Inr [(''lr'', VFloat 2), (''seeds'', VTuple [VInt 4, VInt 5])]
   \<and> cls example_ops (lr_seeds_schema (Generic TTuple [TInt, TEllipsis]) (1 / 1000))
        [(''lr'', VFloat 2), (''seeds'', VTuple [VInt 4, VInt 5])]
      = Inr [(''lr'', VFloat 2), (''seeds'', VTuple [VInt 4, VInt 5])]"
  using example_flat example_cls cast_pass_idempotent[OF example_flat example_cls] by simp

subsection \<open>Saving and loading\<close>


lemma known_items_Nil: "known_items names [] = []"
  by (simp add: known_items_def)

lemma known_items_Cons:
  "known_items names ((k, v) # M) =
     (case k of
        VStr s \<Rightarrow> if s \<in> set names then (s, v) # known_items names M else known_items names M
      | _ \<Rightarrow> known_items names M)"
  by (cases k) (simp_all add: known_items_def)

lemma map_of_known_items:
  "map_of (known_items names M) n = (if n \<in> set names then map_of M (VStr n) else None)"
proof (induction M)
  case Nil
  then show ?case by (simp add: known_items_Nil)
next
  case (Cons kv M)
  obtain k v where kv: "kv = (k, v)" by (cases kv)
  show ?case
    unfolding kv using Cons.IH by (cases k) (auto simp: known_items_Cons)
qed

lemma keys_known_items: "fst ` set (known_items names M) \<subseteq> set names"
proof (induction M)
  case Nil
  then show ?case by (simp add: known_items_Nil)
next
  case (Cons kv M)
  obtain k v where kv: "kv = (k, v)" by (cases kv)
  show ?case
    unfolding kv using Cons.IH by (cases k) (auto simp: known_items_Cons)
qed


lemma map_of_VStr_keys:
  "map_of (map (\<lambda>(k, v). (VStr k, v)) kwargs) (VStr n) = map_of kwargs n"
  by (induction kwargs) auto

lemma map_of_VStr_keys_other:
  "k \<notin> range VStr \<Longrightarrow> map_of (map (\<lambda>(k, v). (VStr k, v)) kwargs) k = None"
  by (induction kwargs) auto

lemma init_value_known_items:
  assumes "fd \<in> set fds"
  shows "init_value (known_items (map field_name fds)
            (AList.merge config_dict (map (\<lambda>(k, v). (VStr k, v)) kwargs))) fd =
         (case raw_value fd config_dict kwargs of
            None \<Rightarrow> Inl TypeError | Some raw \<Rightarrow> Inr (field_name fd, raw))"
  using assms
  by (auto simp: init_value_def raw_value_def map_of_known_items AList.merge_conv' map_add_def
      map_of_VStr_keys split: option.splits)

lemma dataclass_init_known_items:
  "dataclass_init fds (known_items (map field_name fds)
       (AList.merge config_dict (map (\<lambda>(k, v). (VStr k, v)) kwargs))) =
   mapM (\<lambda>fd. case raw_value fd config_dict kwargs of
                None \<Rightarrow> Inl TypeError | Some raw \<Rightarrow> Inr (field_name fd, raw)) fds"
proof -
  let ?K = "known_items (map field_name fds)
       (AList.merge config_dict (map (\<lambda>(k, v). (VStr k, v)) kwargs))"
  have "\<not> (\<exists>k \<in> set (map fst ?K). k \<notin> set (map field_name fds))"
    using keys_known_items[of "map field_name fds"] by auto
  then have "dataclass_init fds ?K = mapM (init_value ?K) fds"
    by (simp add: dataclass_init_def)
  also have "\<dots> = mapM (\<lambda>fd. case raw_value fd config_dict kwargs of
                None \<Rightarrow> Inl TypeError | Some raw \<Rightarrow> Inr (field_name fd, raw)) fds"
    by (rule mapM_cong) (rule init_value_known_items)
  finally show ?thesis .
qed

lemma load_mapping:
  assumes "files fs file_path = Some (Yaml (VDict config_dict))"
  shows "load ops fds fs file_path kwargs =
    cls ops fds (known_items (map field_name fds)
       (AList.merge config_dict (map (\<lambda>(k, v). (VStr k, v)) kwargs)))"
  using assms by (simp add: load_def)



lemma raw_value_unknown_key:
  assumes "k \<notin> VStr ` set (map field_name fds)" "fd \<in> set fds"
  shows "raw_value fd ((k, v) # config_dict) kwargs = raw_value fd config_dict kwargs"
  using assms by (auto simp: raw_value_def split: option.splits)

text \<open>
  C4, as the code has it. For a schema with pairwise different names and a file that
  holds a mapping, \<^verbatim>\<open>load(path, **overrides)\<close> returns an instance exactly when every
  field has a raw value (the override, else the value stored in the file, else the
  declared default) and the cast of that raw value succeeds; the field then holds the
  cast of its raw value, not the raw value itself. A key of the file that is not a field
  name has no effect on the result: it is dropped without an error.
\<close>

theorem load_overrides_then_casts:
  fixes ops :: "'f py_ops"
  assumes dist: "distinct (map field_name fds)"
    and doc: "files fs file_path = Some (Yaml (VDict config_dict))"
  shows "(load ops fds fs file_path kwargs = Inr x \<longleftrightarrow>
            map fst x = map field_name fds \<and>
            (\<forall>fd \<in> set fds. \<exists>raw v. raw_value fd config_dict kwargs = Some raw
                 \<and> field_result ops fd raw = Inr v \<and> map_of x (field_name fd) = Some v))
     \<and> (\<forall>k v. k \<notin> VStr ` set (map field_name fds) \<longrightarrow>
          load ops fds (fs\<lparr>files := (files fs)(file_path \<mapsto> Yaml (VDict ((k, v) # config_dict)))\<rparr>)
            file_path kwargs
          = load ops fds fs file_path kwargs)"
proof (intro conjI allI impI)
  let ?names = "map field_name fds"
  let ?init = "\<lambda>fd. case raw_value fd config_dict kwargs of
                None \<Rightarrow> Inl TypeError | Some raw \<Rightarrow> Inr (field_name fd, raw)"
  have load_eq: "load ops fds fs file_path kwargs = Inr x \<longleftrightarrow>
      (\<exists>self vs. mapM ?init fds = Inr self \<and> cast_all ops fds (map snd self) = Inr vs
          \<and> x = zip ?names vs)"
    unfolding load_mapping[OF doc] cls_Inr_iff[OF dist] dataclass_init_known_items ..
  show "load ops fds fs file_path kwargs = Inr x \<longleftrightarrow>
            map fst x = ?names \<and>
            (\<forall>fd \<in> set fds. \<exists>raw v. raw_value fd config_dict kwargs = Some raw
                 \<and> field_result ops fd raw = Inr v \<and> map_of x (field_name fd) = Some v)"
  proof
    assume "load ops fds fs file_path kwargs = Inr x"
    then obtain self vs where init: "mapM ?init fds = Inr self"
      and cast: "cast_all ops fds (map snd self) = Inr vs" and xeq: "x = zip ?names vs"
      unfolding load_eq by blast
    from init have all2: "list_all2 (\<lambda>fd p. ?init fd = Inr p) fds self"
      by (simp add: mapM_Inr_iff)
    then have lself: "length self = length fds" by (simp add: list_all2_lengthD)
    then have len: "length (map snd self) = length fds" by simp
    from cast have lvs: "length vs = length fds"
      and each: "\<And>i. i < length fds \<Longrightarrow> field_result ops (fds ! i) (map snd self ! i) = Inr (vs ! i)"
      unfolding cast_all_Inr_iff[OF len] by auto
    have "\<exists>raw v. raw_value fd config_dict kwargs = Some raw
        \<and> field_result ops fd raw = Inr v \<and> map_of x (field_name fd) = Some v"
      if "fd \<in> set fds" for fd
    proof -
      from that obtain i where i: "i < length fds" and fd: "fd = fds ! i"
        by (auto simp: in_set_conv_nth)
      have "?init fd = Inr (self ! i)"
        unfolding fd using list_all2_nthD[OF all2 i] by simp
      then have raw: "raw_value fd config_dict kwargs = Some (snd (self ! i))"
        by (cases "raw_value fd config_dict kwargs") (auto simp: snd_def split: prod.splits)
      have res: "field_result ops fd (snd (self ! i)) = Inr (vs ! i)"
        using each[OF i] i lself fd by simp
      have "map_of (zip ?names vs) (?names ! i) = Some (vs ! i)"
        using map_of_zip_nth[of ?names vs i] lvs dist i by simp
      then have "map_of x (field_name fd) = Some (vs ! i)"
        using i fd by (simp add: xeq)
      with raw res show ?thesis by blast
    qed
    moreover have "map fst x = ?names" using lvs by (simp add: xeq)
    ultimately show "map fst x = ?names \<and>
            (\<forall>fd \<in> set fds. \<exists>raw v. raw_value fd config_dict kwargs = Some raw
                 \<and> field_result ops fd raw = Inr v \<and> map_of x (field_name fd) = Some v)"
      by blast
  next
    assume rhs: "map fst x = ?names \<and>
            (\<forall>fd \<in> set fds. \<exists>raw v. raw_value fd config_dict kwargs = Some raw
                 \<and> field_result ops fd raw = Inr v \<and> map_of x (field_name fd) = Some v)"
    then have keys: "map fst x = ?names" by simp
    then have lx: "length x = length fds" by (metis length_map)
    define self where "self = map (\<lambda>fd. (field_name fd, the (raw_value fd config_dict kwargs))) fds"
    have pt: "raw_value (fds ! i) config_dict kwargs = Some (snd (self ! i))
        \<and> field_result ops (fds ! i) (snd (self ! i)) = Inr (snd (x ! i))"
      if i: "i < length fds" for i
    proof -
      from rhs i obtain raw v where raw: "raw_value (fds ! i) config_dict kwargs = Some raw"
        and res: "field_result ops (fds ! i) raw = Inr v"
        and look: "map_of x (field_name (fds ! i)) = Some v"
        by (meson nth_mem)
      have "map_of (zip (map fst x) (map snd x)) (map fst x ! i) = Some (map snd x ! i)"
        by (rule map_of_zip_nth) (use dist keys i lx in simp_all)
      then have "map_of x (map fst x ! i) = Some (map snd x ! i)"
        by (simp only: zip_map_fst_snd)
      then have "map_of x (field_name (fds ! i)) = Some (snd (x ! i))"
        using i lx by (simp add: keys)
      with look have "v = snd (x ! i)" by simp
      with raw res i show ?thesis by (simp add: self_def)
    qed
    have "list_all2 (\<lambda>fd p. ?init fd = Inr p) fds self"
      unfolding list_all2_conv_all_nth
    proof (intro conjI allI impI)
      show "length fds = length self" by (simp add: self_def)
      fix i assume i: "i < length fds"
      then show "?init (fds ! i) = Inr (self ! i)"
        using pt[OF i]
        by (cases "raw_value (fds ! i) config_dict kwargs") (simp_all add: self_def)
    qed
    then have init: "mapM ?init fds = Inr self" by (simp add: mapM_Inr_iff)
    have len: "length (map snd self) = length fds" by (simp add: self_def)
    have cast: "cast_all ops fds (map snd self) = Inr (map snd x)"
      unfolding cast_all_Inr_iff[OF len] using pt lx by (simp add: self_def)
    have "x = zip ?names (map snd x)"
      using keys by (metis zip_map_fst_snd)
    with init cast show "load ops fds fs file_path kwargs = Inr x"
      unfolding load_eq by blast
  qed
next
  fix k v :: "'f pyval"
  assume k: "k \<notin> VStr ` set (map field_name fds)"
  let ?fs' = "fs\<lparr>files := (files fs)(file_path \<mapsto> Yaml (VDict ((k, v) # config_dict)))\<rparr>"
  have file': "files ?fs' file_path = Some (Yaml (VDict ((k, v) # config_dict)))" by simp
  have "mapM (\<lambda>fd. case raw_value fd ((k, v) # config_dict) kwargs of
                None \<Rightarrow> Inl TypeError | Some raw \<Rightarrow> Inr (field_name fd, raw)) fds
      = mapM (\<lambda>fd. case raw_value fd config_dict kwargs of
                None \<Rightarrow> Inl TypeError | Some raw \<Rightarrow> Inr (field_name fd, raw)) fds"
    by (rule mapM_cong) (simp add: raw_value_unknown_key[OF k])
  then show "load ops fds ?fs' file_path kwargs = load ops fds fs file_path kwargs"
    unfolding load_mapping[OF doc] load_mapping[OF file'] cls_def dataclass_init_known_items
    by simp
qed

lemma run_schema_distinct: "distinct (map field_name (run_schema :: real field list))"
  by (simp add: run_schema_def mk_field_def)

lemma run_files_doc: "files (run_files :: real filesystem) ''run.yaml'' = Some (Yaml (VDict run_dict))"
  by (simp add: run_files_def)

lemma run_load:
  "load example_ops run_schema run_files ''run.yaml'' [(''n'', VStr ''7'')]
     = Inr [(''n'', VInt 7), (''name'', VStr ''run1'')]"
  by (simp add: load_def run_files_def run_dict_def run_schema_def known_items_def AList.merge_def
      cls_simps typing_simps int_simps digit_val_def)

theorem load_overrides_then_casts_witness:
  "load example_ops run_schema run_files ''run.yaml'' [(''n'', VStr ''7'')]
     = Inr [(''n'', VInt 7), (''name'', VStr ''run1'')]
   \<and> (\<exists>raw v. raw_value (mk_field ''n'' TInt (Some (VInt 0))) run_dict [(''n'', VStr ''7'')] = Some raw
          \<and> field_result example_ops (mk_field ''n'' TInt (Some (VInt 0))) raw = Inr v
          \<and> map_of [(''n'', VInt 7), (''name'', VStr ''run1'')] ''n'' = Some (v :: real pyval))
   \<and> load example_ops run_schema
        (run_files\<lparr>files := (files run_files)(''run.yaml'' \<mapsto>
            Yaml (VDict ((VStr ''extra'', VInt 5) # run_dict)))\<rparr>) ''run.yaml'' [(''n'', VStr ''7'')]
     = Inr [(''n'', VInt 7), (''name'', VStr ''run1'')]"
proof -
  note inst = load_overrides_then_casts[OF run_schema_distinct run_files_doc,
      of example_ops "[(''n'', VStr ''7'')]" "[(''n'', VInt 7), (''name'', VStr ''run1'')]"]
  have unknown: "VStr ''extra'' \<notin> VStr ` set (map field_name (run_schema :: real field list))"
    by (simp add: run_schema_def mk_field_def)
  have member: "mk_field ''n'' TInt (Some (VInt 0)) \<in> set (run_schema :: real field list)"
    by (simp add: run_schema_def)
  have name: "field_name (mk_field ''n'' TInt (Some (VInt 0)) :: real field) = ''n''"
    by (simp add: mk_field_def)
  have "\<forall>fd \<in> set run_schema. \<exists>raw v. raw_value fd run_dict [(''n'', VStr ''7'')] = Some raw
          \<and> field_result example_ops fd raw = Inr v
          \<and> map_of [(''n'', VInt 7), (''name'', VStr ''run1'')] (field_name fd) = Some v"
    using inst run_load by blast
  from bspec[OF this member]
  have cast: "\<exists>raw v. raw_value (mk_field ''n'' TInt (Some (VInt 0))) run_dict [(''n'', VStr ''7'')] = Some raw
          \<and> field_result example_ops (mk_field ''n'' TInt (Some (VInt 0))) raw = Inr v
          \<and> map_of [(''n'', VInt 7), (''name'', VStr ''run1'')] ''n'' = Some (v :: real pyval)"
    unfolding name .
  have dropped: "load example_ops run_schema
        (run_files\<lparr>files := (files run_files)(''run.yaml'' \<mapsto>
            Yaml (VDict ((VStr ''extra'', VInt 5) # run_dict)))\<rparr>) ''run.yaml'' [(''n'', VStr ''7'')]
     = load example_ops run_schema run_files ''run.yaml'' [(''n'', VStr ''7'')]"
    using inst unknown by blast
  show ?thesis
    using cast dropped run_load by (simp only: simp_thms)
qed

theorem load_override_is_cast:
  "load example_ops run_schema run_files ''run.yaml'' [(''n'', VStr ''7'')]
     = Inr [(''n'', VInt 7), (''name'', VStr ''run1'')]
   \<and> map_of [(''n'', VInt 7), (''name'', VStr ''run1'')] ''n'' \<noteq> Some (VStr ''7'' :: real pyval)"
  by (simp add: load_def run_files_def run_dict_def run_schema_def known_items_def AList.merge_def
      cls_simps typing_simps int_simps digit_val_def)

subsection \<open>The command line without arguments\<close>

lemma field_action_strings:
  "set (act_option_strings (field_action fd))
     \<subseteq> {''--'' @ field_name fd, ''--no-'' @ field_name fd}"
  by (auto simp: field_action_def make_action_def)

lemma option_strings_disjoint:
  assumes "field_name fd \<noteq> field_name fd'" "CHR ''-'' \<notin> set (field_name fd)"
    "CHR ''-'' \<notin> set (field_name fd')"
    "s \<in> set (act_option_strings (field_action fd))"
  shows "s \<notin> set (act_option_strings (field_action fd'))"
proof
  assume "s \<in> set (act_option_strings (field_action fd'))"
  with assms(4) field_action_strings[of fd] field_action_strings[of fd']
  have "s \<in> {''--'' @ field_name fd, ''--no-'' @ field_name fd}"
    "s \<in> {''--'' @ field_name fd', ''--no-'' @ field_name fd'}"
    by blast+
  then consider "field_name fd = field_name fd'" | "field_name fd = ''no-'' @ field_name fd'"
    | "field_name fd' = ''no-'' @ field_name fd"
    by auto
  then show False
  proof cases
    case 1 then show ?thesis using assms(1) by simp
  next
    case 2
    then have "CHR ''-'' \<in> set (field_name fd)" by simp
    then show ?thesis using assms(2) by simp
  next
    case 3
    then have "CHR ''-'' \<in> set (field_name fd')" by simp
    then show ?thesis using assms(3) by simp
  qed
qed

lemma option_strings_not_help:
  assumes "field_name fd \<noteq> ''help''" "s \<in> set (act_option_strings (field_action fd))"
  shows "s \<noteq> ''-h'' \<and> s \<noteq> ''--help''"
  using assms field_action_strings[of fd] by auto

lemma add_arguments_registers:
  assumes "\<forall>fd \<in> set fds. \<not> (kw_action (add_argument fd) = BooleanOptionalAction
              \<and> kw_nargs_plus (add_argument fd))"
    and "distinct (map field_name fds)"
    and "\<forall>fd \<in> set fds. CHR ''-'' \<notin> set (field_name fd)"
    and "\<forall>a \<in> set P. \<forall>s \<in> set (act_option_strings a). \<forall>fd \<in> set fds.
            s \<notin> set (act_option_strings (field_action fd))"
  shows "add_arguments fds P = Inr (P @ map field_action fds)"
  using assms
proof (induction fds arbitrary: P)
  case Nil
  then show ?case by simp
next
  case (Cons fd fds)
  have no_conflict: "\<not> (\<exists>a \<in> set P. \<exists>s \<in> set (act_option_strings (field_action fd)).
        s \<in> set (act_option_strings a))"
    using Cons.prems(4) by auto
  have step: "parser_add_argument P (''--'' @ field_name fd) (add_argument fd)
      = Inr (P @ [field_action fd])"
    using Cons.prems(1) no_conflict
    by (simp add: parser_add_argument_def field_action_def Let_def)
  have inv: "\<forall>a \<in> set (P @ [field_action fd]). \<forall>s \<in> set (act_option_strings a). \<forall>fd' \<in> set fds.
            s \<notin> set (act_option_strings (field_action fd'))"
  proof (intro ballI)
    fix a s fd'
    assume a: "a \<in> set (P @ [field_action fd])" and s: "s \<in> set (act_option_strings a)"
      and fd': "fd' \<in> set fds"
    show "s \<notin> set (act_option_strings (field_action fd'))"
    proof (cases "a \<in> set P")
      case True
      then show ?thesis using Cons.prems(4) s fd' by auto
    next
      case False
      then have a_eq: "a = field_action fd" using a by simp
      have "field_name fd \<noteq> field_name fd'" using Cons.prems(2) fd' by auto
      then show ?thesis
        using option_strings_disjoint[of fd fd' s] Cons.prems(3) fd' s a_eq by simp
    qed
  qed
  have "add_arguments fds (P @ [field_action fd]) = Inr ((P @ [field_action fd]) @ map field_action fds)"
    using Cons.prems(1,2,3) by (intro Cons.IH inv) simp_all
  then show ?case using step by simp
qed

lemma update_new_key: "k \<notin> fst ` set al \<Longrightarrow> AList.update k v al = al @ [(k, v)]"
  by (induction al) auto

lemma map_of_new_key: "k \<notin> fst ` set al \<Longrightarrow> map_of al k = None"
  by (simp add: map_of_eq_None_iff)

lemma field_action_fields:
  "act_dest (field_action fd) = field_name fd"
  "act_default (field_action fd) = Some (case field_default fd of None \<Rightarrow> VMissing | Some d \<Rightarrow> d)"
  by (simp_all add: field_action_def make_action_def add_argument_def Let_def)

lemma init_namespace_fields:
  assumes "distinct (map field_name fds)" "fst ` set ns \<inter> set (map field_name fds) = {}"
  shows "init_namespace (map field_action fds) ns =
     ns @ map (\<lambda>fd. (field_name fd, case field_default fd of None \<Rightarrow> VMissing | Some d \<Rightarrow> d)) fds"
  using assms
proof (induction fds arbitrary: ns)
  case Nil
  then show ?case by simp
next
  case (Cons fd fds)
  let ?d = "case field_default fd of None \<Rightarrow> VMissing | Some d \<Rightarrow> d"
  have new: "field_name fd \<notin> fst ` set ns" using Cons.prems(2) by auto
  have disj: "fst ` set (ns @ [(field_name fd, ?d)]) \<inter> set (map field_name fds) = {}"
    using Cons.prems by auto
  have dist: "distinct (map field_name fds)" using Cons.prems(1) by simp
  show ?case
    using Cons.IH[OF dist disj]
    by (simp add: field_action_fields map_of_new_key[OF new] update_new_key[OF new])
qed

lemma convert_defaults_fields:
  assumes "distinct (map field_name fds)" "fst ` set done \<inter> set (map field_name fds) = {}"
  shows "convert_defaults ops (map field_action fds) []
           (done @ map (\<lambda>fd. (field_name fd, case field_default fd of None \<Rightarrow> VMissing | Some d \<Rightarrow> d)) fds)
     = (case mapM (\<lambda>fd. case namespace_default ops fd of
                           Inl e \<Rightarrow> Inl e | Inr v \<Rightarrow> Inr (field_name fd, v)) fds of
          Inl e \<Rightarrow> Inl e
        | Inr ps \<Rightarrow> Inr (done @ ps))"
  using assms
proof (induction fds arbitrary: "done")
  case Nil
  then show ?case by simp
next
  case (Cons fd fds)
  let ?dflt = "\<lambda>fd. (field_name fd, case field_default fd of None \<Rightarrow> VMissing | Some d \<Rightarrow> d)"
  have new: "field_name fd \<notin> fst ` set done" using Cons.prems(2) by auto
  have dist: "distinct (map field_name fds)" using Cons.prems(1) by simp
  have disj: "fst ` set (done @ [(field_name fd, v)]) \<inter> set (map field_name fds) = {}" for v
    using Cons.prems by auto
  have ih: "convert_defaults ops (map field_action fds) [] (done @ (field_name fd, v) # map ?dflt fds)
     = (case mapM (\<lambda>fd. case namespace_default ops fd of
                           Inl e \<Rightarrow> Inl e | Inr v \<Rightarrow> Inr (field_name fd, v)) fds of
          Inl e \<Rightarrow> Inl e
        | Inr ps \<Rightarrow> Inr (done @ (field_name fd, v) # ps))" for v
    using Cons.IH[OF dist disj, of v] by (simp split: sum.splits)
  show ?case
  proof (cases "\<exists>s. field_default fd = Some (VStr s)")
    case True
    then obtain s where s: "field_default fd = Some (VStr s)" by blast
    have look: "map_of (done @ (field_name fd, VStr s) # map ?dflt fds) (field_name fd) = Some (VStr s)"
      by (rule map_of_middle[OF new])
    show ?thesis
    proof (cases "get_value ops (field_action fd) s")
      case (Inl e)
      then show ?thesis
        using look by (simp add: field_action_fields s namespace_default_def del: map_of_append)
    next
      case (Inr v)
      then show ?thesis
        using look ih[of v]
        by (simp add: field_action_fields s namespace_default_def update_middle[OF new]
            del: map_of_append split: sum.splits)
    qed
  next
    case False
    then have nd: "namespace_default ops fd
        = Inr (case field_default fd of None \<Rightarrow> VMissing | Some d \<Rightarrow> d)"
      by (auto simp: namespace_default_def split: option.splits pyval.splits)
    have skip: "convert_defaults ops (field_action fd # acts) [] ns = convert_defaults ops acts [] ns"
      for acts ns
      using False by (auto simp: field_action_fields split: option.splits pyval.splits)
    have lhs: "convert_defaults ops (map field_action (fd # fds)) [] (done @ map ?dflt (fd # fds))
        = convert_defaults ops (map field_action fds) [] (done @ ?dflt fd # map ?dflt fds)"
      by (simp only: list.map skip)
    show ?thesis
      unfolding lhs ih by (simp add: nd split: sum.splits)
  qed
qed

lemma flat_no_switch_with_nargs:
  assumes "flat_type (field_type fd)"
  shows "\<not> (kw_action (add_argument fd) = BooleanOptionalAction \<and> kw_nargs_plus (add_argument fd))"
proof (cases "strip_union (field_type fd) \<in> set scalar_types")
  case True
  then show ?thesis using scalar_valid[OF True] by (simp add: add_argument_def Let_def)
next
  case False
  then obtain origin args where "strip_union (field_type fd) = Generic origin args"
    "origin \<in> set [TList, TTuple, TSet, TSequence]"
    using assms by (auto simp: flat_type_def split: pytype.splits)
  then show ?thesis by (auto simp: add_argument_def Let_def topy_def)
qed

lemma mapM_keys:
  "mapM (\<lambda>x. case f x of Inl e \<Rightarrow> Inl e | Inr v \<Rightarrow> Inr (g x, v)) xs = Inr ps
     \<Longrightarrow> map fst ps = map g xs"
  by (induction xs arbitrary: ps) (auto split: sum.splits)

lemma filter_known_keys:
  "map fst ps = names \<Longrightarrow> filter (\<lambda>(k, v). k \<in> set names) ps = ps"
  by (force simp: filter_id_conv)

text \<open>
  Without arguments and without a parser of the caller, \<^verbatim>\<open>from_entrypoint\<close> constructs
  the instance from the defaults as \<^verbatim>\<open>argparse\<close> leaves them in the namespace.
\<close>

lemma from_entrypoint_no_arguments:
  assumes flat: "flat_schema fds"
    and names: "\<forall>fd \<in> set fds. field_name fd \<noteq> ''help'' \<and> CHR ''-'' \<notin> set (field_name fd)"
  shows "from_entrypoint ops fds None [] =
     (case mapM (\<lambda>fd. case namespace_default ops fd of
                         Inl e \<Rightarrow> Inl e | Inr v \<Rightarrow> Inr (field_name fd, v)) fds of
        Inl e \<Rightarrow> Inl e
      | Inr ps \<Rightarrow> cls ops fds ps)"
proof -
  let ?conv = "\<lambda>fd. case namespace_default ops fd of
                         Inl e \<Rightarrow> Inl e | Inr v \<Rightarrow> Inr (field_name fd, v)"
  let ?h = "\<lparr>act_option_strings = [''-h'', ''--help''], act_dest = ''help'',
       act_default = None, act_kind = Help, act_type = None\<rparr> :: 'a action"
  have dist: "distinct (map field_name fds)" using flat by (simp add: flat_schema_def)
  have no_tc: "\<forall>fd \<in> set fds. \<not> (kw_action (add_argument fd) = BooleanOptionalAction
              \<and> kw_nargs_plus (add_argument fd))"
    using flat flat_no_switch_with_nargs by (auto simp: flat_schema_def list_all_iff)
  have dash: "\<forall>fd \<in> set fds. CHR ''-'' \<notin> set (field_name fd)" using names by simp
  have hfree: "\<forall>a \<in> set [?h]. \<forall>s \<in> set (act_option_strings a). \<forall>fd \<in> set fds.
            s \<notin> set (act_option_strings (field_action fd))"
    using names option_strings_not_help by fastforce
  have reg: "add_arguments fds ArgumentParser = Inr (?h # map field_action fds)"
    using add_arguments_registers[OF no_tc dist dash hfree] by (simp add: ArgumentParser_def)
  have ns: "init_namespace (?h # map field_action fds) []
      = map (\<lambda>fd. (field_name fd, case field_default fd of None \<Rightarrow> VMissing | Some d \<Rightarrow> d)) fds"
    using init_namespace_fields[OF dist, of "[]"] by simp
  have conv: "convert_defaults ops (?h # map field_action fds) []
        (map (\<lambda>fd. (field_name fd, case field_default fd of None \<Rightarrow> VMissing | Some d \<Rightarrow> d)) fds)
      = (case mapM ?conv fds of Inl e \<Rightarrow> Inl e | Inr ps \<Rightarrow> Inr ps)"
    using convert_defaults_fields[OF dist, of "[]" ops] by (simp split: sum.splits)
  have parse: "parse_known_args ops (?h # map field_action fds) []
      = (case mapM ?conv fds of Inl e \<Rightarrow> Inl e | Inr ps \<Rightarrow> Inr ps)"
    unfolding parse_known_args_def using ns conv by simp
  show ?thesis
  proof (cases "mapM ?conv fds")
    case (Inl e)
    then show ?thesis by (simp add: from_entrypoint_def reg parse)
  next
    case (Inr ps)
    have "filter (\<lambda>(k, v). k \<in> set (map field_name fds)) ps = ps"
      using mapM_keys[OF Inr] by (rule filter_known_keys)
    then show ?thesis using Inr by (simp add: from_entrypoint_def reg parse)
  qed
qed

lemma field_result_scalar:
  assumes "strip_union (field_type fd) \<in> set scalar_types"
  shows "field_result ops fd x =
      (if get_origin (field_type fd) = Some TUnionForm \<and> x = VNone then Inr VNone
       else py_call ops (strip_union (field_type fd)) x)"
  using scalar_valid[OF assms] by (simp add: field_result_def cast_value_def)

lemma namespace_default_cast:
  assumes flat: "flat_type (field_type fd)" and d: "field_default fd = Some d"
    and str: "\<forall>s. d = VStr s \<longrightarrow> get_args (strip_union (field_type fd)) = []"
  shows "(\<exists>c. namespace_default ops fd = Inr c \<and> field_result ops fd c = Inr v)
     \<longleftrightarrow> field_result ops fd d = Inr v"
proof (cases "\<exists>s. d = VStr s")
  case False
  then have "namespace_default ops fd = Inr d"
    using d by (cases d) (simp_all add: namespace_default_def)
  then show ?thesis by simp
next
  case True
  then obtain s where s: "d = VStr s" by blast
  then have "get_args (strip_union (field_type fd)) = []" using str by simp
  then have sc: "strip_union (field_type fd) \<in> set scalar_types"
    using flat by (auto simp: flat_type_def split: pytype.splits)
  let ?t = "strip_union (field_type fd)"
  note sv = scalar_valid[OF sc]
  have ty: "act_type (field_action fd) = Some ?t"
    using sv by (simp add: field_action_def make_action_def add_argument_def Let_def)
  have direct: "field_result ops fd d = py_call ops ?t (VStr s)"
    by (simp add: field_result_scalar[OF sc] s)
  show ?thesis
  proof (cases "py_call ops ?t (VStr s)")
    case (Inl e)
    then have "\<exists>e'. namespace_default ops fd = Inl e'"
      using d by (simp add: namespace_default_def s get_value_def ty)
    then show ?thesis using direct Inl by auto
  next
    case (Inr c)
    then have nd: "namespace_default ops fd = Inr c"
      using d by (simp add: namespace_default_def s get_value_def ty)
    from py_call_scalar_fixed[OF sc Inr]
    have "field_result ops fd c = Inr c"
      by (simp add: field_result_scalar[OF sc])
    then show ?thesis using nd direct Inr by auto
  qed
qed

lemma cls_from_defaults:
  assumes dist: "distinct (map field_name fds)"
    and defaults: "\<forall>fd \<in> set fds. field_default fd \<noteq> None"
  shows "cls ops fds [] = Inr x \<longleftrightarrow>
    (\<exists>vs. length vs = length fds
       \<and> (\<forall>i < length fds. field_result ops (fds ! i) (the (field_default (fds ! i))) = Inr (vs ! i))
       \<and> x = zip (map field_name fds) vs)"
proof -
  let ?self = "map (\<lambda>fd. (field_name fd, the (field_default fd))) fds"
  have "mapM (init_value []) fds
      = mapM (\<lambda>fd. Inr (field_name fd, the (field_default fd))) fds"
    by (rule mapM_cong) (use defaults in \<open>auto simp: init_value_def\<close>)
  also have "\<dots> = Inr ?self"
    by (induction fds) simp_all
  finally have "mapM (init_value []) fds = Inr ?self" .
  then have init: "dataclass_init fds [] = Inr ?self"
    by (simp add: dataclass_init_def)
  have len: "length (map (\<lambda>fd. the (field_default fd)) fds) = length fds" by simp
  have "cls ops fds [] = Inr x \<longleftrightarrow>
      (\<exists>vs. cast_all ops fds (map (\<lambda>fd. the (field_default fd)) fds) = Inr vs
         \<and> x = zip (map field_name fds) vs)"
    by (auto simp: cls_Inr_iff[OF dist] init o_def)
  also have "\<dots> \<longleftrightarrow> (\<exists>vs. length vs = length fds
       \<and> (\<forall>i < length fds. field_result ops (fds ! i) (the (field_default (fds ! i))) = Inr (vs ! i))
       \<and> x = zip (map field_name fds) vs)"
    unfolding cast_all_Inr_iff[OF len] by auto
  finally show ?thesis .
qed

lemma entrypoint_from_namespace:
  assumes flat: "flat_schema fds"
    and names: "\<forall>fd \<in> set fds. field_name fd \<noteq> ''help'' \<and> CHR ''-'' \<notin> set (field_name fd)"
  shows "from_entrypoint ops fds None [] = Inr x \<longleftrightarrow>
    (\<exists>cs vs. length cs = length fds \<and> length vs = length fds
       \<and> (\<forall>i < length fds. namespace_default ops (fds ! i) = Inr (cs ! i)
              \<and> field_result ops (fds ! i) (cs ! i) = Inr (vs ! i))
       \<and> x = zip (map field_name fds) vs)"
proof
  let ?conv = "\<lambda>fd. case namespace_default ops fd of
                         Inl e \<Rightarrow> Inl e | Inr v \<Rightarrow> Inr (field_name fd, v)"
  have dist: "distinct (map field_name fds)" using flat by (simp add: flat_schema_def)
  note unfold = from_entrypoint_no_arguments[OF flat names, of ops]
  {
    assume lhs: "from_entrypoint ops fds None [] = Inr x"
    then obtain ps where ps: "mapM ?conv fds = Inr ps" and c: "cls ops fds ps = Inr x"
      unfolding unfold by (auto split: sum.splits)
    have keys: "map fst ps = map field_name fds" by (rule mapM_keys[OF ps])
    then have lps: "length ps = length fds" by (metis length_map)
    from ps have all2: "list_all2 (\<lambda>fd p. ?conv fd = Inr p) fds ps" by (simp add: mapM_Inr_iff)
    have nd: "namespace_default ops (fds ! i) = Inr (map snd ps ! i)" if i: "i < length fds" for i
    proof -
      have "?conv (fds ! i) = Inr (ps ! i)" using list_all2_nthD[OF all2 i] .
      then obtain b where "namespace_default ops (fds ! i) = Inr b"
        "ps ! i = (field_name (fds ! i), b)"
        by (cases "namespace_default ops (fds ! i)") auto
      then show ?thesis using i lps by simp
    qed
    from c obtain vs where cast: "cast_all ops fds (map snd ps) = Inr vs"
      and xeq: "x = zip (map field_name fds) vs"
      unfolding cls_Inr_iff[OF dist] dataclass_init_self[OF dist keys] by auto
    have len: "length (map snd ps) = length fds" using lps by simp
    from cast have "length vs = length fds"
      "\<forall>i < length fds. field_result ops (fds ! i) (map snd ps ! i) = Inr (vs ! i)"
      unfolding cast_all_Inr_iff[OF len] by auto
    with nd len xeq
    show "\<exists>cs vs. length cs = length fds \<and> length vs = length fds
       \<and> (\<forall>i < length fds. namespace_default ops (fds ! i) = Inr (cs ! i)
              \<and> field_result ops (fds ! i) (cs ! i) = Inr (vs ! i))
       \<and> x = zip (map field_name fds) vs"
      by blast
  }
  {
    assume "\<exists>cs vs. length cs = length fds \<and> length vs = length fds
       \<and> (\<forall>i < length fds. namespace_default ops (fds ! i) = Inr (cs ! i)
              \<and> field_result ops (fds ! i) (cs ! i) = Inr (vs ! i))
       \<and> x = zip (map field_name fds) vs"
    then obtain cs vs where lcs: "length cs = length fds" and lvs: "length vs = length fds"
      and pt: "\<And>i. i < length fds \<Longrightarrow> namespace_default ops (fds ! i) = Inr (cs ! i)
              \<and> field_result ops (fds ! i) (cs ! i) = Inr (vs ! i)"
      and xeq: "x = zip (map field_name fds) vs"
      by blast
    let ?ps = "zip (map field_name fds) cs"
    have keys: "map fst ?ps = map field_name fds" using lcs by simp
    have vals: "map snd ?ps = cs" using lcs by simp
    have "list_all2 (\<lambda>fd p. ?conv fd = Inr p) fds ?ps"
      unfolding list_all2_conv_all_nth using lcs pt by simp
    then have ps: "mapM ?conv fds = Inr ?ps" by (simp add: mapM_Inr_iff)
    have cast: "cast_all ops fds cs = Inr vs"
      unfolding cast_all_Inr_iff[OF lcs] using lvs pt by simp
    have "cast_all ops fds (map snd ?ps) = Inr vs"
      unfolding vals by (rule cast)
    with dataclass_init_self[OF dist keys] xeq have "cls ops fds ?ps = Inr x"
      unfolding cls_Inr_iff[OF dist] by blast
    then show "from_entrypoint ops fds None [] = Inr x"
      unfolding unfold ps by simp
  }
qed

text \<open>
  C8, as the code has it. For a flat schema in which every field has a declared default
  value, no field is called \<^verbatim>\<open>help\<close> (the flag \<^verbatim>\<open>--help\<close> is taken), the names contain
  no dash (they are identifiers) and no parametrised container field has a string as
  its default, \<^verbatim>\<open>from_entrypoint\<close> with an empty argument list and no parser of the
  caller returns an instance exactly when construction from the defaults alone does,
  and the two instances are equal.
\<close>

theorem entrypoint_without_arguments:
  assumes flat: "flat_schema fds"
    and defaults: "\<forall>fd \<in> set fds. \<exists>d. field_default fd = Some d
        \<and> (\<forall>s. d = VStr s \<longrightarrow> get_args (strip_union (field_type fd)) = [])"
    and names: "\<forall>fd \<in> set fds. field_name fd \<noteq> ''help'' \<and> CHR ''-'' \<notin> set (field_name fd)"
  shows "from_entrypoint ops fds None [] = Inr x \<longleftrightarrow> cls ops fds [] = Inr x"
proof -
  have dist: "distinct (map field_name fds)" using flat by (simp add: flat_schema_def)
  have some: "\<forall>fd \<in> set fds. field_default fd \<noteq> None" using defaults by auto
  have pointwise: "(\<exists>c. namespace_default ops (fds ! i) = Inr c \<and> field_result ops (fds ! i) c = Inr v)
      \<longleftrightarrow> field_result ops (fds ! i) (the (field_default (fds ! i))) = Inr v"
    if i: "i < length fds" for i v
  proof -
    have mem: "fds ! i \<in> set fds" using i by simp
    then obtain d where d: "field_default (fds ! i) = Some d"
      and str: "\<forall>s. d = VStr s \<longrightarrow> get_args (strip_union (field_type (fds ! i))) = []"
      using defaults by blast
    have ft: "flat_type (field_type (fds ! i))"
      using flat i by (simp add: flat_schema_def list_all_length)
    show ?thesis using namespace_default_cast[OF ft d str, of ops v] d by simp
  qed
  show ?thesis
    unfolding entrypoint_from_namespace[OF flat names] cls_from_defaults[OF dist some]
  proof
    assume "\<exists>cs vs. length cs = length fds \<and> length vs = length fds
       \<and> (\<forall>i < length fds. namespace_default ops (fds ! i) = Inr (cs ! i)
              \<and> field_result ops (fds ! i) (cs ! i) = Inr (vs ! i))
       \<and> x = zip (map field_name fds) vs"
    then obtain cs vs where "length vs = length fds"
      and pt: "\<And>i. i < length fds \<Longrightarrow> namespace_default ops (fds ! i) = Inr (cs ! i)
              \<and> field_result ops (fds ! i) (cs ! i) = Inr (vs ! i)"
      and "x = zip (map field_name fds) vs"
      by blast
    moreover have "field_result ops (fds ! i) (the (field_default (fds ! i))) = Inr (vs ! i)"
      if i: "i < length fds" for i
      using pointwise[OF i, of "vs ! i"] pt[OF i] by blast
    ultimately show "\<exists>vs. length vs = length fds
       \<and> (\<forall>i < length fds. field_result ops (fds ! i) (the (field_default (fds ! i))) = Inr (vs ! i))
       \<and> x = zip (map field_name fds) vs"
      by blast
  next
    assume "\<exists>vs. length vs = length fds
       \<and> (\<forall>i < length fds. field_result ops (fds ! i) (the (field_default (fds ! i))) = Inr (vs ! i))
       \<and> x = zip (map field_name fds) vs"
    then obtain vs where lvs: "length vs = length fds"
      and pt: "\<And>i. i < length fds \<Longrightarrow>
          field_result ops (fds ! i) (the (field_default (fds ! i))) = Inr (vs ! i)"
      and xeq: "x = zip (map field_name fds) vs"
      by blast
    define cs where "cs = map (\<lambda>fd. projr (namespace_default ops fd)) fds"
    have "namespace_default ops (fds ! i) = Inr (cs ! i)
        \<and> field_result ops (fds ! i) (cs ! i) = Inr (vs ! i)" if i: "i < length fds" for i
    proof -
      from pointwise[OF i, of "vs ! i"] pt[OF i]
      obtain c where "namespace_default ops (fds ! i) = Inr c"
        "field_result ops (fds ! i) c = Inr (vs ! i)" by blast
      then show ?thesis using i by (simp add: cs_def)
    qed
    moreover have "length cs = length fds" by (simp add: cs_def)
    ultimately show "\<exists>cs vs. length cs = length fds \<and> length vs = length fds
       \<and> (\<forall>i < length fds. namespace_default ops (fds ! i) = Inr (cs ! i)
              \<and> field_result ops (fds ! i) (cs ! i) = Inr (vs ! i))
       \<and> x = zip (map field_name fds) vs"
      using lvs xeq by blast
  qed
qed

theorem entrypoint_without_arguments_witness:
  "from_entrypoint example_ops (lr_seeds_schema (Generic TTuple [TInt, TEllipsis]) (1 / 1000)) None []
     = Inr [(''lr'', VFloat (1 / 1000)), (''seeds'', VTuple [VInt 1, VInt 2, VInt 3])]
   \<and> cls example_ops (lr_seeds_schema (Generic TTuple [TInt, TEllipsis]) (1 / 1000)) []
     = Inr [(''lr'', VFloat (1 / 1000)), (''seeds'', VTuple [VInt 1, VInt 2, VInt 3])]"
proof -
  have direct: "cls example_ops (lr_seeds_schema (Generic TTuple [TInt, TEllipsis]) (1 / 1000)) []
     = Inr [(''lr'', VFloat (1 / 1000)), (''seeds'', VTuple [VInt 1, VInt 2, VInt 3])]"
    by (simp add: lr_seeds_schema_def cls_simps typing_simps)
  have defaults: "\<forall>fd \<in> set (lr_seeds_schema (Generic TTuple [TInt, TEllipsis]) (1 / 1000) :: real field list).
      \<exists>d. field_default fd = Some d
        \<and> (\<forall>s. d = VStr s \<longrightarrow> get_args (strip_union (field_type fd)) = [])"
    by (simp add: lr_seeds_schema_def mk_field_def)
  have names: "\<forall>fd \<in> set (lr_seeds_schema (Generic TTuple [TInt, TEllipsis]) (1 / 1000) :: real field list).
      field_name fd \<noteq> ''help'' \<and> CHR ''-'' \<notin> set (field_name fd)"
    by (simp add: lr_seeds_schema_def mk_field_def)
  show ?thesis
    using entrypoint_without_arguments[OF example_flat defaults names, of example_ops] direct
    by simp
qed

theorem entrypoint_string_default_differs:
  "from_entrypoint example_ops strings_schema None [] = Inl TypeError
   \<and> cls example_ops strings_schema [] = Inr [(''xs'', VList [VInt 1, VInt 2])]"
  by (simp add: strings_schema_def parse_simps cls_simps typing_simps int_simps)

end
